theory Spec2Isabelle
  imports Main "HOL-Library.AList" "HOL-Library.Multiset"
begin

section \<open>Interest filter of the news bot (\<open>src/filters/interest_filter.py\<close>)\<close>

text \<open>
  The development embeds the class \<open>InterestFilter\<close>: the constructor with
  \<open>_compile_patterns\<close>, \<open>score_post\<close>, \<open>_get_priority_weight\<close> and \<open>filter_posts\<close>.

  Conventions of the embedding.
  \<^item> Python values that travel in documents are the datatype \<open>pyval\<close>; a \<open>dict\<close> is an
    association list in insertion order, read with \<open>map_of\<close> and written with
    \<open>AList.update\<close> (replace in place, else append), which is what a Python dict does.
  \<^item> Numbers are Python's unbounded \<open>int\<close>: the configuration constants are taken to be
    JSON integers. Float-valued constants are outside the embedding.
  \<^item> Strings are ASCII text; \<open>\w\<close> is \<open>[A-Za-z0-9_]\<close> and case folding maps \<open>A-Z\<close> to
    \<open>a-z\<close>.
  \<^item> Every \<open>KeyError\<close> and \<open>TypeError\<close> the source can raise on such values is a branch
    returning \<open>Inl\<close>.
\<close>

subsection \<open>Values and errors\<close>

datatype pyerror = KeyError string | TypeError

datatype pyval =
    PNone
  | PBool bool
  | PNum int
  | PStr string
  | PList "pyval list"
  | PDict "(string \<times> pyval) list"

type_synonym pydict = "(string \<times> pyval) list"

text \<open>\<open>d.get(k, default)\<close>\<close>

definition py_get :: "pydict \<Rightarrow> string \<Rightarrow> pyval \<Rightarrow> pyval" where
  "py_get d k dflt = (case map_of d k of None \<Rightarrow> dflt | Some v \<Rightarrow> v)"

text \<open>\<open>sep.join(xs)\<close> on a list of strings\<close>

fun join_sep :: "string \<Rightarrow> string list \<Rightarrow> string" where
  "join_sep sep [] = []"
| "join_sep sep [x] = x"
| "join_sep sep (x # y # ys) = x @ sep @ join_sep sep (y # ys)"

fun the_strs :: "pyval list \<Rightarrow> string list option" where
  "the_strs [] = Some []"
| "the_strs (PStr s # vs) = (case the_strs vs of None \<Rightarrow> None | Some ss \<Rightarrow> Some (s # ss))"
| "the_strs (_ # vs) = None"

text \<open>
  \<open>' '.join(v)\<close> for an arbitrary value: a list must hold strings only, a string is
  iterated character by character, a dict is iterated over its keys, anything else is
  not iterable.
\<close>

fun join_space :: "pyval \<Rightarrow> pyerror + string" where
  "join_space (PList vs) =
     (case the_strs vs of None \<Rightarrow> Inl TypeError | Some ss \<Rightarrow> Inr (join_sep '' '' ss))"
| "join_space (PStr s) = Inr (join_sep '' '' (map (\<lambda>c. [c]) s))"
| "join_space (PDict kvs) = Inr (join_sep '' '' (map fst kvs))"
| "join_space _ = Inl TypeError"

text \<open>\<open>a + ' ' + b\<close>: both operands have to be strings.\<close>

fun add_with_space :: "pyval \<Rightarrow> pyval \<Rightarrow> pyerror + string" where
  "add_with_space (PStr a) (PStr b) = Inr (a @ '' '' @ b)"
| "add_with_space _ _ = Inl TypeError"

subsection \<open>The compiled patterns\<close>

text \<open>
  \<open>_compile_patterns\<close> builds, for the keywords \<open>kw1, ..., kwn\<close> of a topic, the regular
  expression \<open>\bKW1\b|...|\bKWn\b\<close> with \<open>KWi = re.escape(kwi)\<close>, compiled with
  \<open>re.IGNORECASE\<close>. An escaped keyword matches exactly its own characters, so a compiled
  pattern is represented by its keyword list and the matcher below interprets it:
  \<open>\b\<close> at both ends, the keyword's characters compared modulo letter case, the
  alternatives tried from left to right. For the empty keyword list the joined pattern
  is the empty regular expression, which matches the empty string at every position.
\<close>

definition is_word :: "char \<Rightarrow> bool" where
  "is_word c =
     (c \<in> set ''abcdefghijklmnopqrstuvwxyzABCDEFGHIJKLMNOPQRSTUVWXYZ0123456789_'')"

definition lower_char :: "char \<Rightarrow> char" where
  "lower_char c =
     (case map_of (zip ''ABCDEFGHIJKLMNOPQRSTUVWXYZ'' ''abcdefghijklmnopqrstuvwxyz'') c of
        None \<Rightarrow> c
      | Some l \<Rightarrow> l)"

definition word_before :: "string \<Rightarrow> nat \<Rightarrow> bool" where
  "word_before t i = (0 < i \<and> i \<le> length t \<and> is_word (t ! (i - 1)))"

definition word_after :: "string \<Rightarrow> nat \<Rightarrow> bool" where
  "word_after t i = (i < length t \<and> is_word (t ! i))"

text \<open>\<open>\b\<close> holds at position \<open>i\<close> when exactly one neighbour is a word character.\<close>

definition at_boundary :: "string \<Rightarrow> nat \<Rightarrow> bool" where
  "at_boundary t i = (word_before t i \<noteq> word_after t i)"

text \<open>The alternative \<open>\bKW\b\<close> matches the text at position \<open>i\<close>.\<close>

definition kw_matches_at :: "string \<Rightarrow> string \<Rightarrow> nat \<Rightarrow> bool" where
  "kw_matches_at kw t i =
     (at_boundary t i \<and> i + length kw \<le> length t \<and>
      map lower_char (take (length kw) (drop i t)) = map lower_char kw \<and>
      at_boundary t (i + length kw))"

text \<open>
  One match attempt at position \<open>i\<close>; the result is the end of the match. With
  \<open>must_advance\<close> an empty match at \<open>i\<close> is refused, as the regex engine does right after
  an empty match.
\<close>

definition match_at :: "string list \<Rightarrow> string \<Rightarrow> nat \<Rightarrow> bool \<Rightarrow> nat option" where
  "match_at kws t i must_advance =
     (if kws = [] then (if must_advance then None else Some i)
      else case find (\<lambda>kw. kw_matches_at kw t i \<and> \<not> (must_advance \<and> kw = [])) kws of
             None \<Rightarrow> None
           | Some kw \<Rightarrow> Some (i + length kw))"

text \<open>\<open>pattern.search(t)\<close>, as the truth value the source tests.\<close>

definition search :: "string list \<Rightarrow> string \<Rightarrow> bool" where
  "search kws t = list_ex (\<lambda>i. match_at kws t i False \<noteq> None) [0..<Suc (length t)]"

text \<open>
  \<open>pattern.findall(t)\<close>: the matched substrings (in the text's own letter case) of the
  successive non-overlapping matches, scanning from the left.
\<close>

function findall_from :: "string list \<Rightarrow> string \<Rightarrow> nat \<Rightarrow> bool \<Rightarrow> string list" where
  "findall_from kws t i must_advance =
     (if length t < i then []
      else case match_at kws t i must_advance of
             Some e \<Rightarrow> take (e - i) (drop i t) # findall_from kws t e (e = i)
           | None \<Rightarrow> findall_from kws t (Suc i) False)"
  by pat_completeness auto
termination
proof (relation
    "measure (\<lambda>(kws, t, i, adv). 2 * (Suc (length t) - i) + (if adv then 0 else 1))")
  show "wf (measure (\<lambda>(kws, t, i, adv).
          2 * (Suc (length t) - i) + (if adv then 0 else (1::nat))))"
    by simp
next
  fix kws :: "string list" and t :: string and i :: nat and must_advance :: bool and e :: nat
  assume le: "\<not> length t < i" and m: "match_at kws t i must_advance = Some e"
  have "i \<le> e" and "must_advance \<longrightarrow> i < e" and "e \<le> length t"
    using m le
    by (auto simp: match_at_def kw_matches_at_def find_Some_iff
        split: if_splits option.splits)
  then show "((kws, t, e, e = i), kws, t, i, must_advance)
      \<in> measure (\<lambda>(kws, t, i, adv). 2 * (Suc (length t) - i) + (if adv then 0 else 1))"
    by (cases "e = i") auto
next
  fix kws :: "string list" and t :: string and i :: nat and must_advance :: bool
  assume "\<not> length t < i"
  then show "((kws, t, Suc i, False), kws, t, i, must_advance)
      \<in> measure (\<lambda>(kws, t, i, adv). 2 * (Suc (length t) - i) + (if adv then 0 else 1))"
    by auto
qed

definition findall :: "string list \<Rightarrow> string \<Rightarrow> string list" where
  "findall kws t = findall_from kws t 0 False"

subsection \<open>Configuration and construction\<close>

text \<open>
  The parsed configuration. Values have the JSON types of the configuration format;
  what stays dynamic is whether a key is present.
\<close>

record raw_topic =
  rt_topic :: "string option"
  rt_priority :: "string option"
  rt_keywords :: "string list option"

record raw_config =
  cfg_interests :: "raw_topic list option"
  cfg_exclude_topics :: "raw_topic list option"
  cfg_scoring :: "(string \<rightharpoonup> int) option"

text \<open>A topic dict after \<open>_compile_patterns\<close> has stored its \<open>'pattern'\<close>.\<close>

record compiled_topic =
  topic :: "string option"
  priority :: "string option"
  pattern :: "string list"

record interest_filter =
  interests :: "compiled_topic list"
  exclude_topics :: "compiled_topic list"
  scoring :: "string \<rightharpoonup> int"

fun compile_patterns :: "raw_topic list \<Rightarrow> pyerror + compiled_topic list" where
  "compile_patterns [] = Inr []"
| "compile_patterns (t # ts) =
     (case rt_keywords t of
        None \<Rightarrow> Inl (KeyError ''keywords'')
      | Some kws \<Rightarrow>
          (case compile_patterns ts of
             Inl e \<Rightarrow> Inl e
           | Inr cs \<Rightarrow>
               Inr (\<lparr>topic = rt_topic t, priority = rt_priority t, pattern = kws\<rparr> # cs)))"

text \<open>\<open>InterestFilter.__init__\<close> on the parsed configuration.\<close>

definition init :: "raw_config \<Rightarrow> pyerror + interest_filter" where
  "init cfg =
     (case cfg_interests cfg of
        None \<Rightarrow> Inl (KeyError ''interests'')
      | Some ints \<Rightarrow>
          (let excl = (case cfg_exclude_topics cfg of None \<Rightarrow> [] | Some es \<Rightarrow> es) in
           case cfg_scoring cfg of
             None \<Rightarrow> Inl (KeyError ''scoring'')
           | Some sc \<Rightarrow>
               (case compile_patterns ints of
                  Inl e \<Rightarrow> Inl e
                | Inr is \<Rightarrow>
                    (case compile_patterns excl of
                       Inl e \<Rightarrow> Inl e
                     | Inr es \<Rightarrow>
                         Inr \<lparr>interests = is, exclude_topics = es, scoring = sc\<rparr>))))"

text \<open>\<open>self.scoring[k]\<close>\<close>

definition scoring_at :: "interest_filter \<Rightarrow> string \<Rightarrow> pyerror + int" where
  "scoring_at f k = (case scoring f k of None \<Rightarrow> Inl (KeyError k) | Some v \<Rightarrow> Inr v)"

subsection \<open>Scoring\<close>

record topic_entry =
  entry_topic :: string
  entry_priority :: string
  entry_score :: int

record matches =
  matched_topics :: "topic_entry list"
  matched_keywords :: "string list"
  exclude_matches :: "string list"
  score_breakdown :: "(string \<times> int) list"

text \<open>
  \<open>_get_priority_weight\<close>: the dict literal reads the three weights before the lookup,
  so a missing weight raises whatever the priority is.
\<close>

definition get_priority_weight :: "interest_filter \<Rightarrow> string \<Rightarrow> pyerror + int" where
  "get_priority_weight f p =
     (case scoring_at f ''high_priority_weight'' of
        Inl e \<Rightarrow> Inl e
      | Inr h \<Rightarrow>
          (case scoring_at f ''medium_priority_weight'' of
             Inl e \<Rightarrow> Inl e
           | Inr m \<Rightarrow>
               (case scoring_at f ''low_priority_weight'' of
                  Inl e \<Rightarrow> Inl e
                | Inr l \<Rightarrow>
                    Inr (if p = ''high'' then h
                         else if p = ''medium'' then m
                         else if p = ''low'' then l
                         else 1))))"

text \<open>
  The body of one \<open>if field_matches:\<close> block: \<open>len(set(ms)) * weight\<close>, times the
  multiplier stored under \<open>mult_key\<close> when the field has one. No match leaves the topic
  score as it is.
\<close>

definition field_score ::
  "interest_filter \<Rightarrow> compiled_topic \<Rightarrow> string list \<Rightarrow> string option \<Rightarrow> pyerror + int" where
  "field_score f it ms mult_key =
     (if ms = [] then Inr 0
      else case priority it of
             None \<Rightarrow> Inl (KeyError ''priority'')
           | Some p \<Rightarrow>
               (case get_priority_weight f p of
                  Inl e \<Rightarrow> Inl e
                | Inr w \<Rightarrow>
                    (case mult_key of
                       None \<Rightarrow> Inr (int (length (remdups ms)) * w)
                     | Some k \<Rightarrow>
                         (case scoring_at f k of
                            Inl e \<Rightarrow> Inl e
                          | Inr m \<Rightarrow> Inr (int (length (remdups ms)) * w * m)))))"

text \<open>\<open>pattern.findall(v)\<close> on a value: only a string can be scanned.\<close>

fun findall_val :: "string list \<Rightarrow> pyval \<Rightarrow> pyerror + string list" where
  "findall_val kws (PStr s) = Inr (findall kws s)"
| "findall_val kws _ = Inl TypeError"

text \<open>
  One iteration of the interest loop up to \<open>if topic_matches:\<close>; the result is
  \<open>(topic_score, topic_matches)\<close>.
\<close>

definition score_topic ::
  "interest_filter \<Rightarrow> pyval \<Rightarrow> pyval \<Rightarrow> string \<Rightarrow> pyval \<Rightarrow> compiled_topic \<Rightarrow>
     pyerror + (int \<times> string list)" where
  "score_topic f title summary key_points significance it =
     (case findall_val (pattern it) title of
        Inl e \<Rightarrow> Inl e
      | Inr title_matches \<Rightarrow>
     (case field_score f it title_matches (Some ''title_match_multiplier'') of
        Inl e \<Rightarrow> Inl e
      | Inr title_score \<Rightarrow>
     (case findall_val (pattern it) summary of
        Inl e \<Rightarrow> Inl e
      | Inr summary_matches \<Rightarrow>
     (case field_score f it summary_matches (Some ''summary_match_multiplier'') of
        Inl e \<Rightarrow> Inl e
      | Inr summary_score \<Rightarrow>
     (case add_with_space (PStr key_points) significance of
        Inl e \<Rightarrow> Inl e
      | Inr other_text \<Rightarrow>
     (let other_matches = findall (pattern it) other_text in
      case field_score f it other_matches None of
        Inl e \<Rightarrow> Inl e
      | Inr other_score \<Rightarrow>
          Inr (title_score + summary_score + other_score,
               title_matches @ summary_matches @ other_matches)))))))"

text \<open>
  The interest loop. \<open>list(set(topic_matches))\<close> has no specified order in Python; the
  model lists the distinct strings in order of first occurrence, and the theorems below
  use only the set and the length of that list.
\<close>

fun interest_pass ::
  "interest_filter \<Rightarrow> pyval \<Rightarrow> pyval \<Rightarrow> string \<Rightarrow> pyval \<Rightarrow> compiled_topic list \<Rightarrow>
     int \<times> matches \<Rightarrow> pyerror + (int \<times> matches)" where
  "interest_pass f title summary key_points significance [] acc = Inr acc"
| "interest_pass f title summary key_points significance (it # its) (score, m) =
     (case score_topic f title summary key_points significance it of
        Inl e \<Rightarrow> Inl e
      | Inr (topic_score, topic_matches) \<Rightarrow>
          if topic_matches = []
          then interest_pass f title summary key_points significance its (score, m)
          else (case topic it of
                  None \<Rightarrow> Inl (KeyError ''topic'')
                | Some name \<Rightarrow>
                    (case priority it of
                       None \<Rightarrow> Inl (KeyError ''priority'')
                     | Some p \<Rightarrow>
                         interest_pass f title summary key_points significance its
                           (score + topic_score,
                            m\<lparr>matched_topics := matched_topics m @
                                 [\<lparr>entry_topic = name, entry_priority = p,
                                   entry_score = topic_score\<rparr>],
                              matched_keywords := matched_keywords m @ remdups topic_matches,
                              score_breakdown :=
                                AList.update name topic_score (score_breakdown m)\<rparr>))))"

text \<open>The exclusion loop; the accumulator is \<open>(score, exclude_matches)\<close>.\<close>

fun exclusion_pass ::
  "interest_filter \<Rightarrow> pyval \<Rightarrow> pyval \<Rightarrow> compiled_topic list \<Rightarrow> int \<times> string list \<Rightarrow>
     pyerror + (int \<times> string list)" where
  "exclusion_pass f title summary [] acc = Inr acc"
| "exclusion_pass f title summary (ex # exs) (score, ems) =
     (case add_with_space title summary of
        Inl e \<Rightarrow> Inl e
      | Inr text \<Rightarrow>
          if search (pattern ex) text
          then (case topic ex of
                  None \<Rightarrow> Inl (KeyError ''topic'')
                | Some name \<Rightarrow>
                    (case scoring_at f ''exclude_penalty'' of
                       Inl e \<Rightarrow> Inl e
                     | Inr pen \<Rightarrow>
                         exclusion_pass f title summary exs (score + pen, ems @ [name])))
          else exclusion_pass f title summary exs (score, ems))"

definition score_post :: "interest_filter \<Rightarrow> pydict \<Rightarrow> pyerror + (int \<times> matches)" where
  "score_post f post =
     (let title = py_get post ''title'' (PStr '''');
          summary = py_get post ''ai_summary'' (PStr '''')
      in case join_space (py_get post ''key_points'' (PList [])) of
           Inl e \<Rightarrow> Inl e
         | Inr key_points \<Rightarrow>
             (let significance = py_get post ''significance'' (PStr '''') in
              case exclusion_pass f title summary (exclude_topics f) (0, []) of
                Inl e \<Rightarrow> Inl e
              | Inr (score, ems) \<Rightarrow>
                  (case scoring_at f ''exclude_penalty'' of
                     Inl e \<Rightarrow> Inl e
                   | Inr pen \<Rightarrow>
                       if score \<le> pen
                       then Inr (score,
                                 \<lparr>matched_topics = [], matched_keywords = [],
                                  exclude_matches = ems,
                                  score_breakdown =
                                    AList.update ''exclusion_penalty'' score []\<rparr>)
                       else interest_pass f title summary key_points significance
                              (interests f)
                              (score,
                               \<lparr>matched_topics = [], matched_keywords = [],
                                exclude_matches = ems, score_breakdown = []\<rparr>))))"

subsection \<open>Filtering and ranking\<close>

definition entry_val :: "topic_entry \<Rightarrow> pyval" where
  "entry_val e =
     PDict [(''topic'', PStr (entry_topic e)), (''priority'', PStr (entry_priority e)),
            (''score'', PNum (entry_score e))]"

definition matches_val :: "matches \<Rightarrow> pyval" where
  "matches_val m =
     PDict [(''matched_topics'', PList (map entry_val (matched_topics m))),
            (''matched_keywords'', PList (map PStr (matched_keywords m))),
            (''exclude_matches'', PList (map PStr (exclude_matches m))),
            (''score_breakdown'', PDict (map (\<lambda>(k, v). (k, PNum v)) (score_breakdown m)))]"

text \<open>
  The body of the loop of \<open>filter_posts\<close>: the dict display
  \<open>{**post, 'relevance_score': ..., 'relevance_matches': ..., 'is_relevant': ...}\<close>.
\<close>

definition enhance :: "interest_filter \<Rightarrow> pydict \<Rightarrow> pyerror + pydict" where
  "enhance f post =
     (case score_post f post of
        Inl e \<Rightarrow> Inl e
      | Inr (score, m) \<Rightarrow>
          (case scoring_at f ''minimum_score_threshold'' of
             Inl e \<Rightarrow> Inl e
           | Inr threshold \<Rightarrow>
               Inr (AList.update ''is_relevant'' (PBool (score \<ge> threshold))
                     (AList.update ''relevance_matches'' (matches_val m)
                       (AList.update ''relevance_score'' (PNum score) post)))))"

fun enhance_all :: "interest_filter \<Rightarrow> pydict list \<Rightarrow> pyerror + pydict list" where
  "enhance_all f [] = Inr []"
| "enhance_all f (post # posts) =
     (case enhance f post of
        Inl e \<Rightarrow> Inl e
      | Inr ep \<Rightarrow>
          (case enhance_all f posts of Inl e \<Rightarrow> Inl e | Inr eps \<Rightarrow> Inr (ep # eps)))"

text \<open>
  The sort key \<open>x['relevance_score']\<close>. Every dict built by \<open>enhance\<close> holds a number
  there; the other branch is never taken on them.
\<close>

definition relevance_score :: "pydict \<Rightarrow> int" where
  "relevance_score d = (case map_of d ''relevance_score'' of Some (PNum n) \<Rightarrow> n | _ \<Rightarrow> 0)"

text \<open>
  \<open>list.sort(key=..., reverse=True)\<close> is a stable sort in descending key order: elements
  with equal keys keep their order. A stable sort has one possible result, which the
  stable insertion sort of the library computes on the negated key.
\<close>

definition filter_posts :: "interest_filter \<Rightarrow> pydict list \<Rightarrow> pyerror + pydict list" where
  "filter_posts f posts =
     (case enhance_all f posts of
        Inl e \<Rightarrow> Inl e
      | Inr filtered_posts \<Rightarrow> Inr (sort_key (\<lambda>x. - relevance_score x) filtered_posts))"

subsection \<open>Well-formed configurations and documents\<close>

text \<open>
  The constants \<open>score_post\<close> and \<open>filter_posts\<close> read from \<open>self.scoring\<close>, and the shape
  of a document as the enrichment step produces it: each text field a string or absent,
  \<open>key_points\<close> a list of strings or absent.
\<close>

definition required_constants :: "string list" where
  "required_constants =
     [''exclude_penalty'', ''title_match_multiplier'', ''summary_match_multiplier'',
      ''high_priority_weight'', ''medium_priority_weight'', ''low_priority_weight'',
      ''minimum_score_threshold'']"

definition well_formed :: "interest_filter \<Rightarrow> bool" where
  "well_formed f =
     (list_all (\<lambda>k. scoring f k \<noteq> None) required_constants \<and>
      list_all (\<lambda>it. topic it \<noteq> None \<and> priority it \<noteq> None) (interests f) \<and>
      list_all (\<lambda>ex. topic ex \<noteq> None) (exclude_topics f))"

fun str_or_absent :: "pyval option \<Rightarrow> bool" where
  "str_or_absent None = True"
| "str_or_absent (Some (PStr s)) = True"
| "str_or_absent (Some _) = False"

fun strs_or_absent :: "pyval option \<Rightarrow> bool" where
  "strs_or_absent None = True"
| "strs_or_absent (Some (PList vs)) = (the_strs vs \<noteq> None)"
| "strs_or_absent (Some _) = False"

definition doc_ok :: "pydict \<Rightarrow> bool" where
  "doc_ok post =
     (str_or_absent (map_of post ''title'') \<and> str_or_absent (map_of post ''ai_summary'') \<and>
      strs_or_absent (map_of post ''key_points'') \<and>
      str_or_absent (map_of post ''significance''))"

text \<open>
  On a document of that shape the four values \<open>score_post\<close> starts from are strings: a
  text field or the empty string, the joined key points, and the two texts that are
  scanned besides title and summary.
\<close>

definition str_field :: "pydict \<Rightarrow> string \<Rightarrow> string" where
  "str_field post k = (case map_of post k of Some (PStr s) \<Rightarrow> s | _ \<Rightarrow> [])"

definition key_points_text :: "pydict \<Rightarrow> string" where
  "key_points_text post =
     (case map_of post ''key_points'' of
        Some (PList vs) \<Rightarrow> (case the_strs vs of Some ss \<Rightarrow> join_sep '' '' ss | None \<Rightarrow> [])
      | _ \<Rightarrow> [])"

definition exclusion_text :: "pydict \<Rightarrow> string" where
  "exclusion_text post = str_field post ''title'' @ '' '' @ str_field post ''ai_summary''"

definition other_text :: "pydict \<Rightarrow> string" where
  "other_text post = key_points_text post @ '' '' @ str_field post ''significance''"

text \<open>
  Reads of keys that a well-formed filter holds, and the weight
  \<open>_get_priority_weight\<close> returns for a topic then.
\<close>

definition name_of :: "compiled_topic \<Rightarrow> string" where
  "name_of t = (case topic t of Some n \<Rightarrow> n | None \<Rightarrow> [])"

definition priority_of :: "compiled_topic \<Rightarrow> string" where
  "priority_of t = (case priority t of Some p \<Rightarrow> p | None \<Rightarrow> [])"

definition const_of :: "interest_filter \<Rightarrow> string \<Rightarrow> int" where
  "const_of f k = (case scoring f k of Some v \<Rightarrow> v | None \<Rightarrow> 0)"

definition weight_of :: "interest_filter \<Rightarrow> compiled_topic \<Rightarrow> int" where
  "weight_of f it =
     (if priority_of it = ''high'' then const_of f ''high_priority_weight''
      else if priority_of it = ''medium'' then const_of f ''medium_priority_weight''
      else if priority_of it = ''low'' then const_of f ''low_priority_weight''
      else 1)"

text \<open>
  What one iteration of the interest loop computes on such a document: the contribution
  of one field from its list of matches, the topic score, and the topic's matches.
\<close>

definition contribution :: "string list \<Rightarrow> int \<Rightarrow> int" where
  "contribution ms w = (if ms = [] then 0 else int (length (remdups ms)) * w)"

definition topic_score_of :: "interest_filter \<Rightarrow> pydict \<Rightarrow> compiled_topic \<Rightarrow> int" where
  "topic_score_of f post it =
     contribution (findall (pattern it) (str_field post ''title''))
       (weight_of f it * const_of f ''title_match_multiplier'') +
     contribution (findall (pattern it) (str_field post ''ai_summary''))
       (weight_of f it * const_of f ''summary_match_multiplier'') +
     contribution (findall (pattern it) (other_text post)) (weight_of f it)"

definition topic_matches_of :: "pydict \<Rightarrow> compiled_topic \<Rightarrow> string list" where
  "topic_matches_of post it =
     findall (pattern it) (str_field post ''title'') @
     findall (pattern it) (str_field post ''ai_summary'') @
     findall (pattern it) (other_text post)"

text \<open>
  The exclusion topics and the interest topics that match a document, the entry appended
  for a matching interest topic, the score after the exclusion loop, and the test of the
  early return.
\<close>

definition excluded_by :: "interest_filter \<Rightarrow> pydict \<Rightarrow> compiled_topic list" where
  "excluded_by f post =
     filter (\<lambda>ex. search (pattern ex) (exclusion_text post)) (exclude_topics f)"

definition matching_interests :: "interest_filter \<Rightarrow> pydict \<Rightarrow> compiled_topic list" where
  "matching_interests f post = filter (\<lambda>it. topic_matches_of post it \<noteq> []) (interests f)"

definition entry_of :: "interest_filter \<Rightarrow> pydict \<Rightarrow> compiled_topic \<Rightarrow> topic_entry" where
  "entry_of f post it =
     \<lparr>entry_topic = name_of it, entry_priority = priority_of it,
      entry_score = topic_score_of f post it\<rparr>"

definition exclusion_score :: "interest_filter \<Rightarrow> pydict \<Rightarrow> int" where
  "exclusion_score f post = int (length (excluded_by f post)) * const_of f ''exclude_penalty''"

definition early_exit :: "interest_filter \<Rightarrow> pydict \<Rightarrow> bool" where
  "early_exit f post = (exclusion_score f post \<le> const_of f ''exclude_penalty'')"

subsection \<open>Whole-word occurrences\<close>

text \<open>
  What the specification calls a whole-word, case-insensitive occurrence of a keyword,
  stated on a decomposition of the text rather than on positions.
\<close>

definition boundary_between :: "string \<Rightarrow> string \<Rightarrow> bool" where
  "boundary_between l r = ((l \<noteq> [] \<and> is_word (last l)) \<noteq> (r \<noteq> [] \<and> is_word (hd r)))"

definition whole_word_occurrence :: "string \<Rightarrow> string \<Rightarrow> bool" where
  "whole_word_occurrence kw t =
     (\<exists>pre mid post. t = pre @ mid @ post \<and> map lower_char mid = map lower_char kw \<and>
        boundary_between pre (mid @ post) \<and> boundary_between (pre @ mid) post)"

subsection \<open>Raw configurations and defaulted documents\<close>

text \<open>
  All topic dicts of a parsed configuration, the raw configurations whose keys are all
  present, and \<open>dict.setdefault\<close> for the four fields \<open>score_post\<close> reads.
\<close>

definition topics_of :: "raw_config \<Rightarrow> raw_topic list" where
  "topics_of cfg =
     (case cfg_interests cfg of None \<Rightarrow> [] | Some ts \<Rightarrow> ts) @
     (case cfg_exclude_topics cfg of None \<Rightarrow> [] | Some ts \<Rightarrow> ts)"

text \<open>What \<open>_compile_patterns\<close> makes of a topic dict that has its keywords.\<close>

definition compiled :: "raw_topic \<Rightarrow> compiled_topic" where
  "compiled t =
     \<lparr>topic = rt_topic t, priority = rt_priority t,
      pattern = (case rt_keywords t of Some kws \<Rightarrow> kws | None \<Rightarrow> [])\<rparr>"

definition wf_config :: "raw_config \<Rightarrow> bool" where
  "wf_config cfg =
     ((case cfg_interests cfg of
         None \<Rightarrow> False
       | Some ts \<Rightarrow>
           list_all (\<lambda>t. rt_topic t \<noteq> None \<and> rt_priority t \<noteq> None \<and> rt_keywords t \<noteq> None) ts) \<and>
      (case cfg_exclude_topics cfg of
         None \<Rightarrow> True
       | Some ts \<Rightarrow> list_all (\<lambda>t. rt_topic t \<noteq> None \<and> rt_keywords t \<noteq> None) ts) \<and>
      (case cfg_scoring cfg of
         None \<Rightarrow> False
       | Some sc \<Rightarrow> list_all (\<lambda>k. sc k \<noteq> None) required_constants))"

definition set_default :: "pydict \<Rightarrow> string \<Rightarrow> pyval \<Rightarrow> pydict" where
  "set_default d k v = (if map_of d k = None then d @ [(k, v)] else d)"

definition with_defaults :: "pydict \<Rightarrow> pydict" where
  "with_defaults post =
     set_default
       (set_default
         (set_default (set_default post ''title'' (PStr '''')) ''ai_summary'' (PStr ''''))
         ''key_points'' (PList []))
       ''significance'' (PStr '''')"

subsection \<open>Example configurations and documents\<close>

text \<open>
  The configuration of the specification's end-to-end examples, extended by a second
  interest and a second exclusion topic, and the documents used below.
\<close>

definition ex_filter :: interest_filter where
  "ex_filter =
     \<lparr>interests =
        [\<lparr>topic = Some ''robotics'', priority = Some ''high'',
          pattern = [''robot'', ''robotics'']\<rparr>,
         \<lparr>topic = Some ''autonomy'', priority = Some ''medium'', pattern = [''waymo'']\<rparr>],
      exclude_topics =
        [\<lparr>topic = Some ''celebrity'', priority = None, pattern = [''kardashian'']\<rparr>,
         \<lparr>topic = Some ''crypto'', priority = None, pattern = [''bitcoin'']\<rparr>],
      scoring =
        [''exclude_penalty'' \<mapsto> - 50, ''title_match_multiplier'' \<mapsto> 2,
         ''summary_match_multiplier'' \<mapsto> 1, ''high_priority_weight'' \<mapsto> 5,
         ''medium_priority_weight'' \<mapsto> 3, ''low_priority_weight'' \<mapsto> 1,
         ''minimum_score_threshold'' \<mapsto> 3]\<rparr>"

definition no_matches :: matches where
  "no_matches =
     \<lparr>matched_topics = [], matched_keywords = [], exclude_matches = [],
      score_breakdown = []\<rparr>"

definition ex_first_post :: pydict where
  "ex_first_post = [(''title'', PStr ''first'')]"

definition ex_single_post :: pydict where
  "ex_single_post = [(''title'', PStr ''robot'')]"

definition ex_second_post :: pydict where
  "ex_second_post = [(''title'', PStr ''second'')]"

definition ex_posts :: "pydict list" where
  "ex_posts = [ex_first_post, ex_single_post, ex_second_post]"

definition ex_ranked :: "pydict list" where
  "ex_ranked =
     [
      [(''title'', PStr ''robot''), (''relevance_score'', PNum 10),
       (''relevance_matches'',
        matches_val
          \<lparr>matched_topics =
             [\<lparr>entry_topic = ''robotics'', entry_priority = ''high'', entry_score = 10\<rparr>],
           matched_keywords = [''robot''], exclude_matches = [],
           score_breakdown = [(''robotics'', 10)]\<rparr>),
       (''is_relevant'', PBool True)],
      [(''title'', PStr ''first''), (''relevance_score'', PNum 0),
       (''relevance_matches'', matches_val no_matches), (''is_relevant'', PBool False)],
      [(''title'', PStr ''second''), (''relevance_score'', PNum 0),
       (''relevance_matches'', matches_val no_matches), (''is_relevant'', PBool False)]
     ]"

definition ex_boundary_post :: pydict where
  "ex_boundary_post = [(''title'', PStr ''Morning news''), (''significance'', PStr ''Waymo expands'')]"

definition ex_boundary_out :: pydict where
  "ex_boundary_out =
     [(''title'', PStr ''Morning news''), (''significance'', PStr ''Waymo expands''),
      (''relevance_score'', PNum 3),
      (''relevance_matches'',
        matches_val
          \<lparr>matched_topics =
             [\<lparr>entry_topic = ''autonomy'', entry_priority = ''medium'', entry_score = 3\<rparr>],
           matched_keywords = [''Waymo''], exclude_matches = [],
           score_breakdown = [(''autonomy'', 3)]\<rparr>),
      (''is_relevant'', PBool True)]"

definition ex_lax_config :: raw_config where
  "ex_lax_config =
     \<lparr>cfg_interests =
        Some [\<lparr>rt_topic = Some ''misc'', rt_priority = Some ''urgent'', rt_keywords = Some []\<rparr>],
      cfg_exclude_topics = None,
      cfg_scoring = Some Map.empty\<rparr>"

definition ex_broken_config :: raw_config where
  "ex_broken_config =
     \<lparr>cfg_interests =
        Some [\<lparr>rt_topic = Some ''robotics'', rt_priority = Some ''high'', rt_keywords = None\<rparr>],
      cfg_exclude_topics = None,
      cfg_scoring = Some Map.empty\<rparr>"

definition ex_kardashian_post :: pydict where
  "ex_kardashian_post = [(''title'', PStr ''Kardashian launches robot startup'')]"

definition ex_doubly_excluded_post :: pydict where
  "ex_doubly_excluded_post =
     [(''title'', PStr ''Kardashian buys bitcoin''), (''ai_summary'', PStr ''A robot story'')]"

definition ex_zero_weight_filter :: interest_filter where
  "ex_zero_weight_filter =
     \<lparr>interests =
        [\<lparr>topic = Some ''robotics'', priority = Some ''high'',
          pattern = [''robot'', ''robotics'']\<rparr>],
      exclude_topics = [],
      scoring =
        [''exclude_penalty'' \<mapsto> - 50, ''title_match_multiplier'' \<mapsto> 2,
         ''summary_match_multiplier'' \<mapsto> 1, ''high_priority_weight'' \<mapsto> 0,
         ''medium_priority_weight'' \<mapsto> 3, ''low_priority_weight'' \<mapsto> 1,
         ''minimum_score_threshold'' \<mapsto> 3]\<rparr>"

definition ex_robot_post :: pydict where
  "ex_robot_post = [(''title'', PStr ''New robot unveiled''), (''ai_summary'', PStr '''')]"

definition ex_overlap_filter :: interest_filter where
  "ex_overlap_filter =
     \<lparr>interests =
        [\<lparr>topic = Some ''robotics'', priority = Some ''high'', pattern = [''robot'']\<rparr>,
         \<lparr>topic = Some ''hardware'', priority = Some ''low'', pattern = [''robot'', ''chip'']\<rparr>],
      exclude_topics = [],
      scoring =
        [''exclude_penalty'' \<mapsto> - 50, ''title_match_multiplier'' \<mapsto> 2,
         ''summary_match_multiplier'' \<mapsto> 1, ''high_priority_weight'' \<mapsto> 5,
         ''medium_priority_weight'' \<mapsto> 3, ''low_priority_weight'' \<mapsto> 1,
         ''minimum_score_threshold'' \<mapsto> 3]\<rparr>"




definition ex_config :: raw_config where
  "ex_config =
     \<lparr>cfg_interests =
        Some [\<lparr>rt_topic = Some ''robotics'', rt_priority = Some ''high'',
               rt_keywords = Some [''robot'', ''robotics'']\<rparr>,
              \<lparr>rt_topic = Some ''autonomy'', rt_priority = Some ''medium'',
               rt_keywords = Some [''waymo'']\<rparr>],
      cfg_exclude_topics =
        Some [\<lparr>rt_topic = Some ''celebrity'', rt_priority = None,
               rt_keywords = Some [''kardashian'']\<rparr>,
              \<lparr>rt_topic = Some ''crypto'', rt_priority = None,
               rt_keywords = Some [''bitcoin'']\<rparr>],
      cfg_scoring =
        Some [''exclude_penalty'' \<mapsto> - 50, ''title_match_multiplier'' \<mapsto> 2,
              ''summary_match_multiplier'' \<mapsto> 1, ''high_priority_weight'' \<mapsto> 5,
              ''medium_priority_weight'' \<mapsto> 3, ''low_priority_weight'' \<mapsto> 1,
              ''minimum_score_threshold'' \<mapsto> 3]\<rparr>"

definition ex_bare_post :: pydict where
  "ex_bare_post = [(''link'', PStr ''https://example.com/1'')]"

definition ex_stale_post :: pydict where
  "ex_stale_post = [(''is_relevant'', PStr ''stale''), (''title'', PStr ''robot'')]"

definition ex_stale_out :: pydict where
  "ex_stale_out =
     [(''is_relevant'', PBool True), (''title'', PStr ''robot''),
      (''relevance_score'', PNum 10),
      (''relevance_matches'',
        matches_val
          \<lparr>matched_topics =
             [\<lparr>entry_topic = ''robotics'', entry_priority = ''high'', entry_score = 10\<rparr>],
           matched_keywords = [''robot''], exclude_matches = [],
           score_breakdown = [(''robotics'', 10)]\<rparr>)]"

section \<open>Properties\<close>

subsection \<open>The matcher\<close>

lemma at_boundary_append: "at_boundary (l @ r) (length l) = boundary_between l r"
  by (auto simp: at_boundary_def boundary_between_def word_before_def word_after_def
      nth_append last_conv_nth hd_conv_nth)

lemma kw_matches_at_iff:
  "kw_matches_at kw t i \<longleftrightarrow>
     (\<exists>pre mid post. t = pre @ mid @ post \<and> length pre = i \<and>
        map lower_char mid = map lower_char kw \<and>
        boundary_between pre (mid @ post) \<and> boundary_between (pre @ mid) post)"
proof
  assume m: "kw_matches_at kw t i"
  define pre where "pre = take i t"
  define mid where "mid = take (length kw) (drop i t)"
  define post where "post = drop (i + length kw) t"
  from m have le: "i + length kw \<le> length t"
    by (simp add: kw_matches_at_def)
  have t: "t = pre @ mid @ post"
    unfolding pre_def mid_def post_def
    by (metis append_take_drop_id drop_drop add.commute)
  have lp: "length pre = i" and lm: "length (pre @ mid) = i + length kw"
    using le by (simp_all add: pre_def mid_def)
  have "boundary_between pre (mid @ post)"
    using m at_boundary_append[of pre "mid @ post"] t lp
    by (simp add: kw_matches_at_def)
  moreover have "boundary_between (pre @ mid) post"
    using m at_boundary_append[of "pre @ mid" post] t lm
    by (simp add: kw_matches_at_def)
  moreover have "map lower_char mid = map lower_char kw"
    using m by (simp add: kw_matches_at_def mid_def)
  ultimately show "\<exists>pre mid post. t = pre @ mid @ post \<and> length pre = i \<and>
        map lower_char mid = map lower_char kw \<and>
        boundary_between pre (mid @ post) \<and> boundary_between (pre @ mid) post"
    using t lp by blast
next
  assume "\<exists>pre mid post. t = pre @ mid @ post \<and> length pre = i \<and>
        map lower_char mid = map lower_char kw \<and>
        boundary_between pre (mid @ post) \<and> boundary_between (pre @ mid) post"
  then obtain pre mid post where
    t: "t = pre @ mid @ post" and lp: "length pre = i" and
    eq: "map lower_char mid = map lower_char kw" and
    b1: "boundary_between pre (mid @ post)" and b2: "boundary_between (pre @ mid) post"
    by blast
  from eq have lm: "length mid = length kw"
    by (metis length_map)
  have "at_boundary t i"
    using b1 at_boundary_append[of pre "mid @ post"] by (simp add: t lp)
  moreover have "at_boundary t (i + length kw)"
    using b2 at_boundary_append[of "pre @ mid" post] by (simp add: t lp lm)
  moreover have "take (length kw) (drop i t) = mid"
    by (simp add: t lp[symmetric] lm[symmetric])
  moreover have "i + length kw \<le> length t"
    by (simp add: t lp[symmetric] lm[symmetric])
  ultimately show "kw_matches_at kw t i"
    using eq by (simp add: kw_matches_at_def)
qed

lemma kw_matches_at_le: "kw_matches_at kw t i \<Longrightarrow> i \<le> length t"
  by (simp add: kw_matches_at_def)

lemma match_at_free_iff:
  "match_at kws t i False \<noteq> None \<longleftrightarrow> kws = [] \<or> (\<exists>kw\<in>set kws. kw_matches_at kw t i)"
proof -
  have "find (\<lambda>kw. kw_matches_at kw t i) kws \<noteq> None \<longleftrightarrow>
          (\<exists>kw\<in>set kws. kw_matches_at kw t i)"
    by (auto simp: find_None_iff)
  then show ?thesis
    by (cases "find (\<lambda>kw. kw_matches_at kw t i) kws") (simp_all add: match_at_def)
qed

lemma search_iff:
  "search kws t \<longleftrightarrow> (\<exists>i\<le>length t. match_at kws t i False \<noteq> None)"
  by (simp add: search_def list_ex_iff Bex_def less_Suc_eq_le del: upt_Suc)

lemma search_iff_matches:
  "search kws t \<longleftrightarrow> kws = [] \<or> (\<exists>kw\<in>set kws. \<exists>i. kw_matches_at kw t i)"
proof -
  have "search kws t \<longleftrightarrow>
          (\<exists>i\<le>length t. kws = [] \<or> (\<exists>kw\<in>set kws. kw_matches_at kw t i))"
    unfolding search_iff match_at_free_iff ..
  also have "\<dots> \<longleftrightarrow> kws = [] \<or> (\<exists>kw\<in>set kws. \<exists>i. kw_matches_at kw t i)"
    using kw_matches_at_le by blast
  finally show ?thesis .
qed

lemma search_iff_occurrence:
  "kws \<noteq> [] \<Longrightarrow> search kws t \<longleftrightarrow> (\<exists>kw\<in>set kws. whole_word_occurrence kw t)"
  unfolding search_iff_matches kw_matches_at_iff whole_word_occurrence_def by blast

lemma search_Nil: "search [] t"
  by (simp add: search_iff_matches)

lemma not_word_space: "\<not> is_word CHR '' ''"
  by (simp add: is_word_def)

lemma boundary_between_extend_right:
  "boundary_between l (r @ '' '' @ s) = boundary_between l r"
  by (cases r) (auto simp: boundary_between_def not_word_space)

lemma boundary_between_extend_left:
  "boundary_between (s @ '' '' @ l) r = boundary_between l r"
  by (cases l rule: rev_cases) (auto simp: boundary_between_def not_word_space)

lemma occurrence_in_title:
  assumes "whole_word_occurrence kw a"
  shows "whole_word_occurrence kw (a @ '' '' @ b)"
proof -
  from assms obtain pre mid post where
    t: "a = pre @ mid @ post" and eq: "map lower_char mid = map lower_char kw" and
    b1: "boundary_between pre (mid @ post)" and b2: "boundary_between (pre @ mid) post"
    unfolding whole_word_occurrence_def by blast
  have "a @ '' '' @ b = pre @ mid @ (post @ '' '' @ b)"
    by (simp add: t)
  moreover have "boundary_between pre (mid @ (post @ '' '' @ b))"
    using b1 boundary_between_extend_right[of pre "mid @ post" b] by simp
  moreover have "boundary_between (pre @ mid) (post @ '' '' @ b)"
    using b2 boundary_between_extend_right[of "pre @ mid" post b] by simp
  ultimately show ?thesis
    unfolding whole_word_occurrence_def using eq by blast
qed

lemma occurrence_in_summary:
  assumes "whole_word_occurrence kw b"
  shows "whole_word_occurrence kw (a @ '' '' @ b)"
proof -
  from assms obtain pre mid post where
    t: "b = pre @ mid @ post" and eq: "map lower_char mid = map lower_char kw" and
    b1: "boundary_between pre (mid @ post)" and b2: "boundary_between (pre @ mid) post"
    unfolding whole_word_occurrence_def by blast
  have "a @ '' '' @ b = (a @ '' '' @ pre) @ mid @ post"
    by (simp add: t)
  moreover have "boundary_between (a @ '' '' @ pre) (mid @ post)"
    using b1 boundary_between_extend_left[of a pre "mid @ post"] by simp
  moreover have "boundary_between ((a @ '' '' @ pre) @ mid) post"
    using b2 boundary_between_extend_left[of a "pre @ mid" post] by simp
  ultimately show ?thesis
    unfolding whole_word_occurrence_def using eq by blast
qed

lemma search_title_or_summary:
  assumes "search kws a \<or> search kws b"
  shows "search kws (a @ '' '' @ b)"
proof (cases "kws = []")
  case True
  then show ?thesis by (simp add: search_Nil)
next
  case False
  from assms obtain kw where
    kw: "kw \<in> set kws" "whole_word_occurrence kw a \<or> whole_word_occurrence kw b"
    unfolding search_iff_occurrence[OF False] by blast
  from kw(2) have "whole_word_occurrence kw (a @ '' '' @ b)"
    using occurrence_in_title occurrence_in_summary by blast
  with kw(1) show ?thesis
    unfolding search_iff_occurrence[OF False] by blast
qed

lemma ex_from_Suc:
  "(Suc i \<le> n \<and> (P (Suc i) \<or> (\<exists>j. Suc i < j \<and> j \<le> n \<and> P j))) \<longleftrightarrow>
   (\<exists>j. i < j \<and> j \<le> n \<and> P j)"
proof
  assume "Suc i \<le> n \<and> (P (Suc i) \<or> (\<exists>j. Suc i < j \<and> j \<le> n \<and> P j))"
  then show "\<exists>j. i < j \<and> j \<le> n \<and> P j"
    by (auto intro: exI[of _ "Suc i"] Suc_lessD)
next
  assume "\<exists>j. i < j \<and> j \<le> n \<and> P j"
  then obtain j where j: "i < j" "j \<le> n" "P j" by blast
  then have "Suc i \<le> n" by simp
  moreover have "j = Suc i \<or> Suc i < j" using j(1) by auto
  ultimately show "Suc i \<le> n \<and> (P (Suc i) \<or> (\<exists>j. Suc i < j \<and> j \<le> n \<and> P j))"
    using j by blast
qed

lemma ex_from_0:
  "(P 0 \<or> (\<exists>j. 0 < j \<and> j \<le> n \<and> P j)) \<longleftrightarrow> (\<exists>j\<le>n. P (j::nat))"
proof
  assume "P 0 \<or> (\<exists>j. 0 < j \<and> j \<le> n \<and> P j)"
  then show "\<exists>j\<le>n. P j" by auto
next
  assume "\<exists>j\<le>n. P j"
  then obtain j where j: "j \<le> n" "P j" by blast
  show "P 0 \<or> (\<exists>j. 0 < j \<and> j \<le> n \<and> P j)"
    using j by (cases "j = 0") auto
qed

lemma findall_from_nonempty_iff:
  "findall_from kws t i adv \<noteq> [] \<longleftrightarrow>
     i \<le> length t \<and>
     (match_at kws t i adv \<noteq> None \<or>
      (\<exists>j. i < j \<and> j \<le> length t \<and> match_at kws t j False \<noteq> None))"
proof (induction kws t i adv rule: findall_from.induct)
  case (1 kws t i adv)
  show ?case
  proof (cases "length t < i")
    case True
    then show ?thesis by simp
  next
    case le: False
    show ?thesis
    proof (cases "match_at kws t i adv")
      case (Some e)
      then show ?thesis using le by simp
    next
      case None
      have "findall_from kws t i adv = findall_from kws t (Suc i) False"
        using le None by simp
      also have "\<dots> \<noteq> [] \<longleftrightarrow> Suc i \<le> length t \<and>
          (match_at kws t (Suc i) False \<noteq> None \<or>
           (\<exists>j. Suc i < j \<and> j \<le> length t \<and> match_at kws t j False \<noteq> None))"
        using "1.IH"(1)[OF le None] .
      also have "\<dots> \<longleftrightarrow> (\<exists>j. i < j \<and> j \<le> length t \<and> match_at kws t j False \<noteq> None)"
        by (rule ex_from_Suc)
      finally show ?thesis
        using le None by simp
    qed
  qed
qed

lemma findall_nonempty_iff_search: "findall kws t \<noteq> [] \<longleftrightarrow> search kws t"
proof -
  have "findall kws t \<noteq> [] \<longleftrightarrow>
          (match_at kws t 0 False \<noteq> None \<or>
           (\<exists>j. 0 < j \<and> j \<le> length t \<and> match_at kws t j False \<noteq> None))"
    unfolding findall_def findall_from_nonempty_iff by simp
  also have "\<dots> \<longleftrightarrow> (\<exists>j\<le>length t. match_at kws t j False \<noteq> None)"
    by (rule ex_from_0)
  finally show ?thesis
    by (simp add: search_iff)
qed

subsection \<open>Scoring under a well-formed configuration\<close>

lemma well_formed_constants:
  assumes "well_formed f"
  shows "scoring_at f ''exclude_penalty'' = Inr (const_of f ''exclude_penalty'')"
    and "scoring_at f ''title_match_multiplier'' = Inr (const_of f ''title_match_multiplier'')"
    and "scoring_at f ''summary_match_multiplier'' =
           Inr (const_of f ''summary_match_multiplier'')"
    and "scoring_at f ''high_priority_weight'' = Inr (const_of f ''high_priority_weight'')"
    and "scoring_at f ''medium_priority_weight'' = Inr (const_of f ''medium_priority_weight'')"
    and "scoring_at f ''low_priority_weight'' = Inr (const_of f ''low_priority_weight'')"
    and "scoring_at f ''minimum_score_threshold'' =
           Inr (const_of f ''minimum_score_threshold'')"
proof -
  have k: "scoring f k \<noteq> None \<Longrightarrow> scoring_at f k = Inr (const_of f k)" for k
    by (auto simp: scoring_at_def const_of_def)
  from assms have "list_all (\<lambda>k. scoring f k \<noteq> None) required_constants"
    unfolding well_formed_def by blast
  then have a: "scoring f ''exclude_penalty'' \<noteq> None \<and>
      scoring f ''title_match_multiplier'' \<noteq> None \<and>
      scoring f ''summary_match_multiplier'' \<noteq> None \<and>
      scoring f ''high_priority_weight'' \<noteq> None \<and>
      scoring f ''medium_priority_weight'' \<noteq> None \<and>
      scoring f ''low_priority_weight'' \<noteq> None \<and>
      scoring f ''minimum_score_threshold'' \<noteq> None"
    unfolding required_constants_def by simp
  show "scoring_at f ''exclude_penalty'' = Inr (const_of f ''exclude_penalty'')"
    using a by (intro k) blast
  show "scoring_at f ''title_match_multiplier'' = Inr (const_of f ''title_match_multiplier'')"
    using a by (intro k) blast
  show "scoring_at f ''summary_match_multiplier'' =
           Inr (const_of f ''summary_match_multiplier'')"
    using a by (intro k) blast
  show "scoring_at f ''high_priority_weight'' = Inr (const_of f ''high_priority_weight'')"
    using a by (intro k) blast
  show "scoring_at f ''medium_priority_weight'' = Inr (const_of f ''medium_priority_weight'')"
    using a by (intro k) blast
  show "scoring_at f ''low_priority_weight'' = Inr (const_of f ''low_priority_weight'')"
    using a by (intro k) blast
  show "scoring_at f ''minimum_score_threshold'' =
           Inr (const_of f ''minimum_score_threshold'')"
    using a by (intro k) blast
qed

lemma well_formed_weight:
  assumes "well_formed f"
  shows "get_priority_weight f (priority_of it) = Inr (weight_of f it)"
  unfolding get_priority_weight_def well_formed_constants[OF assms] weight_of_def
  by simp

lemma field_score_eq:
  assumes "get_priority_weight f (priority_of it) = Inr w" and "priority it \<noteq> None"
  shows "scoring_at f k = Inr c \<Longrightarrow> field_score f it ms (Some k) = Inr (contribution ms (w * c))"
    and "field_score f it ms None = Inr (contribution ms w)"
  using assms
  by (auto simp: field_score_def contribution_def priority_of_def mult.assoc)

lemma well_formed_field_score:
  assumes "well_formed f" and "priority it \<noteq> None"
  shows "field_score f it ms (Some ''title_match_multiplier'') =
           Inr (contribution ms (weight_of f it * const_of f ''title_match_multiplier''))"
    and "field_score f it ms (Some ''summary_match_multiplier'') =
           Inr (contribution ms (weight_of f it * const_of f ''summary_match_multiplier''))"
    and "field_score f it ms None = Inr (contribution ms (weight_of f it))"
  using field_score_eq[OF well_formed_weight[OF assms(1)] assms(2)]
    well_formed_constants[OF assms(1)]
  by blast+

lemma well_formed_score_topic:
  assumes "well_formed f" and "priority it \<noteq> None"
  shows "score_topic f (PStr (str_field post ''title'')) (PStr (str_field post ''ai_summary''))
           (key_points_text post) (PStr (str_field post ''significance'')) it =
         Inr (topic_score_of f post it, topic_matches_of post it)"
  by (simp add: score_topic_def well_formed_field_score[OF assms] topic_score_of_def
      topic_matches_of_def other_text_def Let_def)

lemma doc_ok_fields:
  assumes "doc_ok post"
  shows "py_get post ''title'' (PStr '''') = PStr (str_field post ''title'')"
    and "py_get post ''ai_summary'' (PStr '''') = PStr (str_field post ''ai_summary'')"
    and "py_get post ''significance'' (PStr '''') = PStr (str_field post ''significance'')"
    and "join_space (py_get post ''key_points'' (PList [])) = Inr (key_points_text post)"
proof -
  have s: "str_or_absent v \<Longrightarrow>
           (case v of None \<Rightarrow> PStr '''' | Some x \<Rightarrow> x) =
           PStr (case v of Some (PStr s) \<Rightarrow> s | _ \<Rightarrow> [])" for v
    by (cases v rule: str_or_absent.cases) simp_all
  show "py_get post ''title'' (PStr '''') = PStr (str_field post ''title'')"
    using assms s[of "map_of post ''title''"] by (simp add: doc_ok_def py_get_def str_field_def)
  show "py_get post ''ai_summary'' (PStr '''') = PStr (str_field post ''ai_summary'')"
    using assms s[of "map_of post ''ai_summary''"]
    by (simp add: doc_ok_def py_get_def str_field_def)
  show "py_get post ''significance'' (PStr '''') = PStr (str_field post ''significance'')"
    using assms s[of "map_of post ''significance''"]
    by (simp add: doc_ok_def py_get_def str_field_def)
  have k: "strs_or_absent v \<Longrightarrow>
           join_space (case v of None \<Rightarrow> PList [] | Some x \<Rightarrow> x) =
           Inr (case v of
                  Some (PList vs) \<Rightarrow>
                    (case the_strs vs of Some ss \<Rightarrow> join_sep '' '' ss | None \<Rightarrow> [])
                | _ \<Rightarrow> [])" for v
    by (cases v rule: strs_or_absent.cases) auto
  show "join_space (py_get post ''key_points'' (PList [])) = Inr (key_points_text post)"
    using assms k[of "map_of post ''key_points''"]
    by (simp add: doc_ok_def py_get_def key_points_text_def)
qed

lemma exclusion_pass_eq:
  assumes "well_formed f" and "list_all (\<lambda>ex. topic ex \<noteq> None) exs"
  shows "exclusion_pass f (PStr a) (PStr b) exs (score, ems) =
         Inr (score + int (length (filter (\<lambda>ex. search (pattern ex) (a @ '' '' @ b)) exs)) *
                        const_of f ''exclude_penalty'',
              ems @ map name_of (filter (\<lambda>ex. search (pattern ex) (a @ '' '' @ b)) exs))"
  using assms(2)
proof (induction exs arbitrary: score ems)
  case Nil
  then show ?case by simp
next
  case (Cons ex exs)
  have pen: "scoring_at f ''exclude_penalty'' = Inr (const_of f ''exclude_penalty'')"
    by (rule well_formed_constants[OF assms(1)])
  from Cons.prems obtain n where n: "topic ex = Some n" and rest: "list_all (\<lambda>ex. topic ex \<noteq> None) exs"
    by auto
  show ?case
    using Cons.IH[OF rest] n pen
    by (simp add: name_of_def algebra_simps)
qed

lemma interest_pass_eq:
  assumes "well_formed f"
    and "list_all (\<lambda>it. topic it \<noteq> None \<and> priority it \<noteq> None) its"
  shows "interest_pass f (PStr (str_field post ''title'')) (PStr (str_field post ''ai_summary''))
           (key_points_text post) (PStr (str_field post ''significance'')) its (score, m) =
         Inr (score + sum_list (map (topic_score_of f post)
                         (filter (\<lambda>it. topic_matches_of post it \<noteq> []) its)),
              m\<lparr>matched_topics := matched_topics m @
                   map (entry_of f post) (filter (\<lambda>it. topic_matches_of post it \<noteq> []) its),
                matched_keywords := matched_keywords m @
                   concat (map (\<lambda>it. remdups (topic_matches_of post it))
                     (filter (\<lambda>it. topic_matches_of post it \<noteq> []) its)),
                score_breakdown :=
                   fold (\<lambda>it. AList.update (name_of it) (topic_score_of f post it))
                     (filter (\<lambda>it. topic_matches_of post it \<noteq> []) its) (score_breakdown m)\<rparr>)"
  using assms(2)
proof (induction its arbitrary: score m)
  case Nil
  then show ?case by simp
next
  case (Cons it its)
  from Cons.prems obtain n p where
    n: "topic it = Some n" and p: "priority it = Some p" and
    rest: "list_all (\<lambda>it. topic it \<noteq> None \<and> priority it \<noteq> None) its"
    by auto
  have st: "score_topic f (PStr (str_field post ''title'')) (PStr (str_field post ''ai_summary''))
           (key_points_text post) (PStr (str_field post ''significance'')) it =
         Inr (topic_score_of f post it, topic_matches_of post it)"
    by (rule well_formed_score_topic[OF assms(1)]) (simp add: p)
  show ?case
  proof (cases "topic_matches_of post it = []")
    case True
    then show ?thesis
      using st Cons.IH[OF rest] by simp
  next
    case False
    then show ?thesis
      using st n p Cons.IH[OF rest]
      by (simp add: entry_of_def name_of_def priority_of_def algebra_simps)
  qed
qed

lemma score_post_eq:
  assumes "well_formed f" and "doc_ok post"
  shows "score_post f post =
         Inr (if early_exit f post
              then (exclusion_score f post,
                    \<lparr>matched_topics = [], matched_keywords = [],
                     exclude_matches = map name_of (excluded_by f post),
                     score_breakdown = [(''exclusion_penalty'', exclusion_score f post)]\<rparr>)
              else (exclusion_score f post +
                      sum_list (map (topic_score_of f post) (matching_interests f post)),
                    \<lparr>matched_topics = map (entry_of f post) (matching_interests f post),
                     matched_keywords =
                       concat (map (\<lambda>it. remdups (topic_matches_of post it))
                         (matching_interests f post)),
                     exclude_matches = map name_of (excluded_by f post),
                     score_breakdown =
                       fold (\<lambda>it. AList.update (name_of it) (topic_score_of f post it))
                         (matching_interests f post) []\<rparr>))"
proof -
  have pen: "scoring_at f ''exclude_penalty'' = Inr (const_of f ''exclude_penalty'')"
    by (rule well_formed_constants[OF assms(1)])
  have ex: "exclusion_pass f (PStr (str_field post ''title'')) (PStr (str_field post ''ai_summary''))
              (exclude_topics f) (0, []) =
            Inr (exclusion_score f post, map name_of (excluded_by f post))"
    using exclusion_pass_eq[OF assms(1), of "exclude_topics f"] assms(1)
    by (simp add: well_formed_def exclusion_score_def excluded_by_def exclusion_text_def)
  have ip: "interest_pass f (PStr (str_field post ''title'')) (PStr (str_field post ''ai_summary''))
           (key_points_text post) (PStr (str_field post ''significance'')) (interests f)
           (score, m) =
         Inr (score + sum_list (map (topic_score_of f post) (matching_interests f post)),
              m\<lparr>matched_topics := matched_topics m @
                   map (entry_of f post) (matching_interests f post),
                matched_keywords := matched_keywords m @
                   concat (map (\<lambda>it. remdups (topic_matches_of post it))
                     (matching_interests f post)),
                score_breakdown :=
                   fold (\<lambda>it. AList.update (name_of it) (topic_score_of f post it))
                     (matching_interests f post) (score_breakdown m)\<rparr>)" for score m
    unfolding matching_interests_def
    by (rule interest_pass_eq[OF assms(1)]) (use assms(1) in \<open>simp add: well_formed_def\<close>)
  show ?thesis
    unfolding score_post_def Let_def doc_ok_fields[OF assms(2)]
    by (simp add: ex pen ip early_exit_def)
qed

lemma ex_filter_well_formed: "well_formed ex_filter"
  unfolding well_formed_def required_constants_def ex_filter_def by simp

subsection \<open>Annotation and ranking\<close>

lemma enhance_all_Inr:
  "enhance_all f posts = Inr eps \<Longrightarrow> list_all2 (\<lambda>p e. enhance f p = Inr e) posts eps"
  by (induction posts arbitrary: eps) (auto split: sum.splits)

lemma enhance_Inr:
  assumes "enhance f post = Inr ep"
  shows "\<exists>score m threshold.
           score_post f post = Inr (score, m) \<and>
           scoring f ''minimum_score_threshold'' = Some threshold \<and>
           ep = AList.update ''is_relevant'' (PBool (threshold \<le> score))
                  (AList.update ''relevance_matches'' (matches_val m)
                    (AList.update ''relevance_score'' (PNum score) post))"
  using assms
  by (auto simp: enhance_def scoring_at_def split: sum.splits option.splits prod.splits)

lemma enhance_lookup:
  assumes "enhance f post = Inr ep"
  shows "\<exists>score m threshold.
           score_post f post = Inr (score, m) \<and>
           scoring f ''minimum_score_threshold'' = Some threshold \<and>
           map_of ep = (map_of post)(''relevance_score'' \<mapsto> PNum score,
                          ''relevance_matches'' \<mapsto> matches_val m,
                          ''is_relevant'' \<mapsto> PBool (threshold \<le> score))"
proof -
  from enhance_Inr[OF assms] obtain score m threshold where
    s: "score_post f post = Inr (score, m)" and
    t: "scoring f ''minimum_score_threshold'' = Some threshold" and
    e: "ep = AList.update ''is_relevant'' (PBool (threshold \<le> score))
                  (AList.update ''relevance_matches'' (matches_val m)
                    (AList.update ''relevance_score'' (PNum score) post))"
    by blast
  show ?thesis
    using s t unfolding e by (simp add: update_conv')
qed

lemma enhance_relevance_score:
  "enhance f post = Inr ep \<Longrightarrow> score_post f post = Inr (score, m) \<Longrightarrow> relevance_score ep = score"
  using enhance_lookup[of f post ep] by (auto simp: relevance_score_def)

lemma filter_posts_Inr:
  "filter_posts f posts = Inr out \<Longrightarrow>
     \<exists>eps. enhance_all f posts = Inr eps \<and> out = sort_key (\<lambda>x. - relevance_score x) eps"
  by (auto simp: filter_posts_def split: sum.splits)

lemma enhance_total:
  assumes "well_formed f" and "doc_ok post"
  shows "\<exists>e. enhance f post = Inr e"
  using score_post_eq[OF assms] well_formed_constants(7)[OF assms(1)]
  by (simp add: enhance_def split: prod.splits)

lemma enhance_all_total:
  "(\<And>p. p \<in> set posts \<Longrightarrow> \<exists>e. enhance f p = Inr e) \<Longrightarrow> \<exists>eps. enhance_all f posts = Inr eps"
proof (induction posts)
  case Nil
  then show ?case by simp
next
  case (Cons p posts)
  from Cons.prems obtain e where e: "enhance f p = Inr e"
    by auto
  from Cons obtain eps where "enhance_all f posts = Inr eps"
    by auto
  with e show ?case
    by simp
qed

lemma filter_posts_total:
  assumes "well_formed f" and "list_all doc_ok posts"
  shows "\<exists>out. filter_posts f posts = Inr out"
proof -
  have "\<exists>eps. enhance_all f posts = Inr eps"
  proof (rule enhance_all_total)
    fix p
    assume "p \<in> set posts"
    with assms(2) have "doc_ok p"
      by (simp add: list_all_iff)
    then show "\<exists>e. enhance f p = Inr e"
      by (rule enhance_total[OF assms(1)])
  qed
  then show ?thesis
    by (auto simp: filter_posts_def)
qed

section \<open>The claims\<close>

subsection \<open>C1: the exclusion veto\<close>

lemma excluded_by_nonempty:
  assumes "\<exists>ex\<in>set (exclude_topics f).
             search (pattern ex) (str_field post ''title'') \<or>
             search (pattern ex) (str_field post ''ai_summary'')"
  shows "1 \<le> length (excluded_by f post)"
proof -
  from assms obtain ex where
    ex: "ex \<in> set (exclude_topics f)" and
    m: "search (pattern ex) (str_field post ''title'') \<or>
        search (pattern ex) (str_field post ''ai_summary'')"
    by blast
  from m have "search (pattern ex) (exclusion_text post)"
    unfolding exclusion_text_def by (rule search_title_or_summary)
  with ex have "ex \<in> set (excluded_by f post)"
    by (simp add: excluded_by_def)
  then have "excluded_by f post \<noteq> []"
    by auto
  then show ?thesis
    by (cases "excluded_by f post") simp_all
qed

lemma early_exit_negative:
  assumes "const_of f ''exclude_penalty'' < 0" and "1 \<le> length (excluded_by f post)"
  shows "early_exit f post"
proof -
  have a: "0 \<le> int (length (excluded_by f post)) - 1"
    using assms(2) by linarith
  have b: "const_of f ''exclude_penalty'' \<le> 0"
    using assms(1) by simp
  have "(int (length (excluded_by f post)) - 1) * const_of f ''exclude_penalty'' \<le> 0"
    by (rule mult_nonneg_nonpos[OF a b])
  then show ?thesis
    by (simp add: early_exit_def exclusion_score_def algebra_simps)
qed

text \<open>
  Claim C1, as amended. Under a well-formed configuration with a negative
  \<open>exclude_penalty\<close>, a document whose title or enrichment summary matches a keyword of
  some exclusion topic is scored without any interest scoring: \<open>matched_topics\<close> and
  \<open>matched_keywords\<close> are empty, \<open>score_breakdown\<close> holds the single key
  \<open>exclusion_penalty\<close>, and the score is \<open>exclude_penalty\<close> once for every exclusion topic
  that matched, hence \<open>exclude_penalty\<close> itself exactly when one topic matched.
\<close>

theorem exclusion_veto:
  assumes "well_formed f" and "doc_ok post"
    and "const_of f ''exclude_penalty'' < 0"
    and "\<exists>ex\<in>set (exclude_topics f).
           search (pattern ex) (str_field post ''title'') \<or>
           search (pattern ex) (str_field post ''ai_summary'')"
  shows "1 \<le> length (excluded_by f post) \<and>
         score_post f post =
           Inr (int (length (excluded_by f post)) * const_of f ''exclude_penalty'',
                \<lparr>matched_topics = [], matched_keywords = [],
                 exclude_matches = map name_of (excluded_by f post),
                 score_breakdown =
                   [(''exclusion_penalty'',
                     int (length (excluded_by f post)) * const_of f ''exclude_penalty'')]\<rparr>)"
proof -
  have n: "1 \<le> length (excluded_by f post)"
    by (rule excluded_by_nonempty[OF assms(4)])
  have "early_exit f post"
    by (rule early_exit_negative[OF assms(3) n])
  then show ?thesis
    using n score_post_eq[OF assms(1,2)] by (simp add: exclusion_score_def)
qed

theorem exclusion_veto_witness:
  "well_formed ex_filter \<and> doc_ok ex_kardashian_post \<and>
   const_of ex_filter ''exclude_penalty'' < 0 \<and>
   (\<exists>ex\<in>set (exclude_topics ex_filter).
      search (pattern ex) (str_field ex_kardashian_post ''title'') \<or>
      search (pattern ex) (str_field ex_kardashian_post ''ai_summary'')) \<and>
   score_post ex_filter ex_kardashian_post =
     Inr (- 50,
          \<lparr>matched_topics = [], matched_keywords = [], exclude_matches = [''celebrity''],
           score_breakdown = [(''exclusion_penalty'', - 50)]\<rparr>)"
proof -
  have h2: "doc_ok ex_kardashian_post"
    unfolding ex_kardashian_post_def doc_ok_def by simp
  have h3: "const_of ex_filter ''exclude_penalty'' < 0"
    unfolding ex_filter_def const_of_def by simp
  have h4: "\<exists>ex\<in>set (exclude_topics ex_filter).
      search (pattern ex) (str_field ex_kardashian_post ''title'') \<or>
      search (pattern ex) (str_field ex_kardashian_post ''ai_summary'')"
    unfolding ex_filter_def ex_kardashian_post_def by code_simp
  have k: "excluded_by ex_filter ex_kardashian_post =
             [\<lparr>topic = Some ''celebrity'', priority = None, pattern = [''kardashian'']\<rparr>]"
    unfolding ex_filter_def ex_kardashian_post_def by code_simp
  have p: "const_of ex_filter ''exclude_penalty'' = - 50"
    unfolding ex_filter_def const_of_def by simp
  from exclusion_veto[OF ex_filter_well_formed h2 h3 h4]
  have "score_post ex_filter ex_kardashian_post =
     Inr (- 50,
          \<lparr>matched_topics = [], matched_keywords = [], exclude_matches = [''celebrity''],
           score_breakdown = [(''exclusion_penalty'', - 50)]\<rparr>)"
    unfolding k p by (simp add: name_of_def)
  then show ?thesis
    using ex_filter_well_formed h2 h3 h4 by blast
qed

text \<open>
  The claim as stated fails when two exclusion topics match: the penalty \<open>-50\<close> is added
  twice.
\<close>

theorem exclusion_veto_counterexample:
  "scoring ex_filter ''exclude_penalty'' = Some (- 50) \<and>
   search [''kardashian''] ''Kardashian buys bitcoin'' \<and>
   score_post ex_filter ex_doubly_excluded_post =
     Inr (- 100,
          \<lparr>matched_topics = [], matched_keywords = [],
           exclude_matches = [''celebrity'', ''crypto''],
           score_breakdown = [(''exclusion_penalty'', - 100)]\<rparr>)"
  unfolding ex_filter_def ex_doubly_excluded_post_def by code_simp

subsection \<open>C2: what the constructor rejects\<close>

lemma compile_patterns_Inl_iff:
  "(\<exists>e. compile_patterns ts = Inl e) \<longleftrightarrow> (\<exists>t\<in>set ts. rt_keywords t = None)"
  by (induction ts) (auto split: option.splits sum.splits)

lemma compile_patterns_error:
  "compile_patterns ts = Inl e \<Longrightarrow> e = KeyError ''keywords''"
  by (induction ts) (auto split: option.splits sum.splits)

text \<open>
  Claim C2, as amended. Construction from a parsed configuration raises exactly when the
  key \<open>interests\<close> or the key \<open>scoring\<close> is missing or some topic dict has no
  \<open>keywords\<close>, and the error is the \<open>KeyError\<close> of that key. Nothing else is checked at
  load time: an empty keyword list, a priority outside high, medium and low, and a
  \<open>scoring\<close> dict without its constants are all accepted, and a priority outside the
  three names weighs \<open>1\<close>.
\<close>

theorem init_fails_iff:
  "((\<exists>e. init cfg = Inl e) \<longleftrightarrow>
      cfg_interests cfg = None \<or> cfg_scoring cfg = None \<or>
      (\<exists>t\<in>set (topics_of cfg). rt_keywords t = None)) \<and>
   (\<forall>e. init cfg = Inl e \<longrightarrow>
      e \<in> {KeyError ''interests'', KeyError ''scoring'', KeyError ''keywords''}) \<and>
   (\<forall>(f::interest_filter) p. scoring f ''high_priority_weight'' \<noteq> None \<and>
          scoring f ''medium_priority_weight'' \<noteq> None \<and>
          scoring f ''low_priority_weight'' \<noteq> None \<and>
          p \<notin> {''high'', ''medium'', ''low''} \<longrightarrow>
          get_priority_weight f p = Inr 1)"
proof (intro conjI allI impI)
  show "(\<exists>e. init cfg = Inl e) \<longleftrightarrow>
      cfg_interests cfg = None \<or> cfg_scoring cfg = None \<or>
      (\<exists>t\<in>set (topics_of cfg). rt_keywords t = None)"
  proof (cases "cfg_interests cfg")
    case None
    then show ?thesis by (simp add: init_def)
  next
    case (Some ints)
    note ints = this
    show ?thesis
    proof (cases "cfg_scoring cfg")
      case None
      then show ?thesis using ints by (simp add: init_def)
    next
      case (Some sc)
      define excl where "excl = (case cfg_exclude_topics cfg of None \<Rightarrow> [] | Some es \<Rightarrow> es)"
      have "(\<exists>e. init cfg = Inl e) \<longleftrightarrow>
              (\<exists>e. compile_patterns ints = Inl e) \<or> (\<exists>e. compile_patterns excl = Inl e)"
        using ints Some
        by (cases "compile_patterns ints"; cases "compile_patterns excl")
           (simp_all add: init_def excl_def)
      also have "\<dots> \<longleftrightarrow> (\<exists>t\<in>set (ints @ excl). rt_keywords t = None)"
        unfolding compile_patterns_Inl_iff by auto
      finally show ?thesis
        using ints Some by (simp add: topics_of_def excl_def)
    qed
  qed
next
  fix e
  assume "init cfg = Inl e"
  then have "e = KeyError ''interests'' \<or> e = KeyError ''scoring'' \<or>
      (\<exists>ts. compile_patterns ts = Inl e)"
    unfolding init_def Let_def
    by (simp split: option.splits sum.splits, blast+)
  then have "e = KeyError ''interests'' \<or> e = KeyError ''scoring'' \<or>
      e = KeyError ''keywords''"
    using compile_patterns_error by blast
  then show "e \<in> {KeyError ''interests'', KeyError ''scoring'', KeyError ''keywords''}"
    by blast
next
  fix f :: interest_filter and p
  assume "scoring f ''high_priority_weight'' \<noteq> None \<and>
          scoring f ''medium_priority_weight'' \<noteq> None \<and>
          scoring f ''low_priority_weight'' \<noteq> None \<and>
          p \<notin> {''high'', ''medium'', ''low''}"
  then show "get_priority_weight f p = Inr 1"
    by (auto simp: get_priority_weight_def scoring_at_def)
qed

text \<open>
  The claim as stated fails: a configuration whose only topic has the empty keyword list
  and the priority \<open>urgent\<close>, and whose \<open>scoring\<close> dict is empty, is loaded.
\<close>

theorem init_accepts_counterexample:
  "init ex_lax_config =
     Inr \<lparr>interests = [\<lparr>topic = Some ''misc'', priority = Some ''urgent'', pattern = []\<rparr>],
          exclude_topics = [], scoring = Map.empty\<rparr>"
  by (simp add: init_def ex_lax_config_def)

theorem init_fails_iff_witness:
  "init ex_broken_config = Inl (KeyError ''keywords'') \<and>
   (\<exists>t\<in>set (topics_of ex_broken_config). rt_keywords t = None) \<and>
   \<not> (\<exists>e. init ex_lax_config = Inl e) \<and>
   get_priority_weight ex_filter ''urgent'' = Inr 1"
proof -
  have a: "init ex_broken_config = Inl (KeyError ''keywords'')"
    by (simp add: init_def ex_broken_config_def)
  have a': "\<exists>t\<in>set (topics_of ex_broken_config). rt_keywords t = None"
    by (simp add: ex_broken_config_def topics_of_def)
  have b: "\<not> (cfg_interests ex_lax_config = None \<or> cfg_scoring ex_lax_config = None \<or>
    (\<exists>t\<in>set (topics_of ex_lax_config). rt_keywords t = None))"
    by (simp add: ex_lax_config_def topics_of_def)
  have c: "scoring ex_filter ''high_priority_weight'' \<noteq> None \<and>
          scoring ex_filter ''medium_priority_weight'' \<noteq> None \<and>
          scoring ex_filter ''low_priority_weight'' \<noteq> None \<and>
          ''urgent'' \<notin> {''high'', ''medium'', ''low''}"
    by (simp add: ex_filter_def)
  have "(\<exists>e. init ex_lax_config = Inl e) \<longleftrightarrow>
      cfg_interests ex_lax_config = None \<or> cfg_scoring ex_lax_config = None \<or>
      (\<exists>t\<in>set (topics_of ex_lax_config). rt_keywords t = None)"
    using init_fails_iff[of ex_lax_config] by (rule conjunct1)
  with b have d: "\<not> (\<exists>e. init ex_lax_config = Inl e)"
    by (rule_tac notI) (erule notE, erule iffD1)
  have "\<forall>(f::interest_filter) p. scoring f ''high_priority_weight'' \<noteq> None \<and>
          scoring f ''medium_priority_weight'' \<noteq> None \<and>
          scoring f ''low_priority_weight'' \<noteq> None \<and>
          p \<notin> {''high'', ''medium'', ''low''} \<longrightarrow>
          get_priority_weight f p = Inr 1"
    using init_fails_iff[of ex_lax_config] by (elim conjE)
  then have e: "get_priority_weight ex_filter ''urgent'' = Inr 1"
    using c by (elim allE impE)
  from a a' d e show ?thesis
    by (intro conjI)
qed

subsection \<open>C3: the ranking\<close>

text \<open>
  Claim C3. On a well-formed configuration and documents of the input shape
  \<open>filter_posts\<close> returns; and whenever it returns, its result holds one annotated document
  for every input document (it is a permutation of the list of annotated inputs, of the
  same length), the scores are descending, and documents with equal \<open>relevance_score\<close>
  keep the relative order of the input.
\<close>

theorem filter_posts_ranking:
  "(well_formed f \<and> list_all doc_ok posts \<longrightarrow> (\<exists>out. filter_posts f posts = Inr out)) \<and>
   (\<forall>out. filter_posts f posts = Inr out \<longrightarrow>
      (\<exists>eps. list_all2 (\<lambda>p e. enhance f p = Inr e) posts eps \<and>
             length out = length posts \<and>
             mset out = mset eps \<and>
             sorted_wrt (\<lambda>a b. relevance_score a \<ge> relevance_score b) out \<and>
             (\<forall>k. filter (\<lambda>d. relevance_score d = k) out =
                  filter (\<lambda>d. relevance_score d = k) eps)))"
proof (intro conjI allI impI)
  assume "well_formed f \<and> list_all doc_ok posts"
  then show "\<exists>out. filter_posts f posts = Inr out"
    using filter_posts_total by blast
next
  fix out
  assume ret: "filter_posts f posts = Inr out"
  from filter_posts_Inr[OF ret] obtain eps where
    eps: "enhance_all f posts = Inr eps" and
    out: "out = sort_key (\<lambda>x. - relevance_score x) eps"
    by blast
  have rel: "list_all2 (\<lambda>p e. enhance f p = Inr e) posts eps"
    by (rule enhance_all_Inr[OF eps])
  then have len: "length out = length posts"
    by (simp add: out list_all2_lengthD)
  have perm: "mset out = mset eps"
    by (simp add: out)
  have "sorted (map (\<lambda>x. - relevance_score x) out)"
    unfolding out by (rule sorted_sort_key)
  then have desc: "sorted_wrt (\<lambda>a b. relevance_score a \<ge> relevance_score b) out"
    by (simp add: sorted_map)
  have stable: "filter (\<lambda>d. relevance_score d = k) out =
                filter (\<lambda>d. relevance_score d = k) eps" for k
    using sort_key_stable[of "\<lambda>x. - relevance_score x" "- k" eps]
    by (simp add: out)
  show "\<exists>eps. list_all2 (\<lambda>p e. enhance f p = Inr e) posts eps \<and>
             length out = length posts \<and>
             mset out = mset eps \<and>
             sorted_wrt (\<lambda>a b. relevance_score a \<ge> relevance_score b) out \<and>
             (\<forall>k. filter (\<lambda>d. relevance_score d = k) out =
                  filter (\<lambda>d. relevance_score d = k) eps)"
    using rel len perm desc stable by blast
qed

lemma ex_ranked_eval: "filter_posts ex_filter ex_posts = Inr ex_ranked"
  unfolding ex_filter_def ex_posts_def ex_first_post_def ex_single_post_def
    ex_second_post_def ex_ranked_def no_matches_def
  by code_simp

theorem filter_posts_ranking_witness:
  "well_formed ex_filter \<and> list_all doc_ok ex_posts \<and>
   filter_posts ex_filter ex_posts = Inr ex_ranked \<and>
   map relevance_score ex_ranked = [10, 0, 0] \<and>
   (\<exists>eps. list_all2 (\<lambda>p e. enhance ex_filter p = Inr e) ex_posts eps \<and>
          length ex_ranked = length ex_posts \<and>
          mset ex_ranked = mset eps \<and>
          sorted_wrt (\<lambda>a b. relevance_score a \<ge> relevance_score b) ex_ranked \<and>
          (\<forall>k. filter (\<lambda>d. relevance_score d = k) ex_ranked =
               filter (\<lambda>d. relevance_score d = k) eps))"
proof -
  have d: "list_all doc_ok ex_posts"
    unfolding ex_posts_def ex_first_post_def ex_single_post_def ex_second_post_def doc_ok_def
    by simp
  have k: "map relevance_score ex_ranked = [10, 0, 0]"
    unfolding ex_ranked_def by code_simp
  from filter_posts_ranking[of ex_filter ex_posts]
  have "\<forall>out. filter_posts ex_filter ex_posts = Inr out \<longrightarrow>
      (\<exists>eps. list_all2 (\<lambda>p e. enhance ex_filter p = Inr e) ex_posts eps \<and>
             length out = length ex_posts \<and>
             mset out = mset eps \<and>
             sorted_wrt (\<lambda>a b. relevance_score a \<ge> relevance_score b) out \<and>
             (\<forall>k. filter (\<lambda>d. relevance_score d = k) out =
                  filter (\<lambda>d. relevance_score d = k) eps))"
    by (rule conjunct2)
  then have e: "\<exists>eps. list_all2 (\<lambda>p e. enhance ex_filter p = Inr e) ex_posts eps \<and>
          length ex_ranked = length ex_posts \<and>
          mset ex_ranked = mset eps \<and>
          sorted_wrt (\<lambda>a b. relevance_score a \<ge> relevance_score b) ex_ranked \<and>
          (\<forall>k. filter (\<lambda>d. relevance_score d = k) ex_ranked =
               filter (\<lambda>d. relevance_score d = k) eps)"
    using ex_ranked_eval by (elim allE impE)
  from ex_filter_well_formed d ex_ranked_eval k e show ?thesis
    by (intro conjI)
qed

subsection \<open>C4: the relevance flag\<close>

text \<open>
  Claim C4. Every document returned by \<open>filter_posts\<close> carries the flag
  \<open>is_relevant = (relevance_score \<ge> minimum_score_threshold)\<close>; a score equal to the
  threshold is relevant.
\<close>

theorem is_relevant_threshold:
  assumes "filter_posts f posts = Inr out" and "d \<in> set out"
  shows "\<exists>threshold.
           scoring f ''minimum_score_threshold'' = Some threshold \<and>
           map_of d ''relevance_score'' = Some (PNum (relevance_score d)) \<and>
           map_of d ''is_relevant'' = Some (PBool (relevance_score d \<ge> threshold))"
proof -
  from filter_posts_Inr[OF assms(1)] obtain eps where
    eps: "enhance_all f posts = Inr eps" and
    out: "out = sort_key (\<lambda>x. - relevance_score x) eps"
    by blast
  from assms(2) have "d \<in> set eps"
    by (simp add: out)
  with enhance_all_Inr[OF eps] obtain p where "enhance f p = Inr d"
    by (auto simp: list_all2_conv_all_nth in_set_conv_nth)
  from enhance_lookup[OF this] obtain score m threshold where
    t: "scoring f ''minimum_score_threshold'' = Some threshold" and
    d: "map_of d = (map_of p)(''relevance_score'' \<mapsto> PNum score,
                      ''relevance_matches'' \<mapsto> matches_val m,
                      ''is_relevant'' \<mapsto> PBool (threshold \<le> score))"
    by blast
  have "relevance_score d = score"
    by (simp add: relevance_score_def d)
  then show ?thesis
    using t d by simp
qed

theorem is_relevant_threshold_witness:
  "filter_posts ex_filter [ex_boundary_post] = Inr [ex_boundary_out] \<and>
   ex_boundary_out \<in> set [ex_boundary_out] \<and>
   scoring ex_filter ''minimum_score_threshold'' = Some 3 \<and>
   map_of ex_boundary_out ''relevance_score'' = Some (PNum 3) \<and>
   map_of ex_boundary_out ''is_relevant'' = Some (PBool True)"
proof -
  have h: "filter_posts ex_filter [ex_boundary_post] = Inr [ex_boundary_out]"
    unfolding ex_filter_def ex_boundary_post_def ex_boundary_out_def by code_simp
  have i: "ex_boundary_out \<in> set [ex_boundary_out]"
    by simp
  have s: "relevance_score ex_boundary_out = 3"
    unfolding ex_boundary_out_def by code_simp
  have t: "scoring ex_filter ''minimum_score_threshold'' = Some 3"
    unfolding ex_filter_def by simp
  from is_relevant_threshold[OF h i] show ?thesis
    using h s t by auto
qed

subsection \<open>C5: which topics are recorded\<close>

lemma topic_matches_nonempty_iff:
  "topic_matches_of post it \<noteq> [] \<longleftrightarrow>
     search (pattern it) (str_field post ''title'') \<or>
     search (pattern it) (str_field post ''ai_summary'') \<or>
     search (pattern it) (other_text post)"
  by (simp add: topic_matches_of_def findall_nonempty_iff_search)

lemma matching_interests_search:
  "matching_interests f post =
     filter (\<lambda>it. search (pattern it) (str_field post ''title'') \<or>
                  search (pattern it) (str_field post ''ai_summary'') \<or>
                  search (pattern it) (other_text post)) (interests f)"
  by (simp add: matching_interests_def topic_matches_nonempty_iff)

lemma update_key_set: "fst ` set (AList.update k v al) = insert k (fst ` set al)"
proof -
  have "dom (map_of (AList.update k v al)) = insert k (dom (map_of al))"
    by (simp add: update_conv')
  then show ?thesis
    by (simp only: dom_map_of_conv_image_fst)
qed

lemma fold_update_keys:
  "fst ` set (fold (\<lambda>x. AList.update (k x) (v x)) xs al) = fst ` set al \<union> k ` set xs"
  by (induction xs arbitrary: al) (simp_all add: update_key_set)

text \<open>
  Claim C5, as amended. When the interest pass is reached, an interest topic gets its entry
  in \<open>matched_topics\<close>, its key in \<open>score_breakdown\<close> and its matches in
  \<open>matched_keywords\<close> exactly when its pattern matches in the title, in the summary or in
  the key points and significance text, whatever the topic score: the entries are those
  of the matching topics, in configuration order.
\<close>

theorem matched_topics_iff_match:
  assumes "well_formed f" and "doc_ok post" and "\<not> early_exit f post"
  shows "\<exists>s m. score_post f post = Inr (s, m) \<and>
           matched_topics m =
             map (entry_of f post)
               (filter (\<lambda>it. search (pattern it) (str_field post ''title'') \<or>
                            search (pattern it) (str_field post ''ai_summary'') \<or>
                            search (pattern it) (other_text post)) (interests f)) \<and>
           set (map fst (score_breakdown m)) =
             name_of `
               {it \<in> set (interests f).
                  search (pattern it) (str_field post ''title'') \<or>
                  search (pattern it) (str_field post ''ai_summary'') \<or>
                  search (pattern it) (other_text post)} \<and>
           matched_keywords m =
             concat (map (\<lambda>it. remdups (topic_matches_of post it))
               (filter (\<lambda>it. search (pattern it) (str_field post ''title'') \<or>
                            search (pattern it) (str_field post ''ai_summary'') \<or>
                            search (pattern it) (other_text post)) (interests f)))"
proof -
  have "fst ` set (fold (\<lambda>it. AList.update (name_of it) (topic_score_of f post it))
           (matching_interests f post) []) = name_of ` set (matching_interests f post)"
    by (simp add: fold_update_keys)
  then show ?thesis
    using score_post_eq[OF assms(1,2)] assms(3)
    unfolding matching_interests_search by simp
qed

theorem matched_topics_iff_match_witness:
  "well_formed ex_filter \<and> doc_ok ex_robot_post \<and> \<not> early_exit ex_filter ex_robot_post \<and>
   (\<exists>s m. score_post ex_filter ex_robot_post = Inr (s, m) \<and>
      matched_topics m =
        [\<lparr>entry_topic = ''robotics'', entry_priority = ''high'', entry_score = 10\<rparr>])"
proof -
  have h2: "doc_ok ex_robot_post"
    unfolding ex_robot_post_def doc_ok_def by simp
  have h3: "\<not> early_exit ex_filter ex_robot_post"
    unfolding ex_filter_def ex_robot_post_def by code_simp
  have e: "map (entry_of ex_filter ex_robot_post)
             (filter (\<lambda>it. search (pattern it) (str_field ex_robot_post ''title'') \<or>
                          search (pattern it) (str_field ex_robot_post ''ai_summary'') \<or>
                          search (pattern it) (other_text ex_robot_post))
                (interests ex_filter)) =
           [\<lparr>entry_topic = ''robotics'', entry_priority = ''high'', entry_score = 10\<rparr>]"
    unfolding ex_filter_def ex_robot_post_def by code_simp
  from matched_topics_iff_match[OF ex_filter_well_formed h2 h3]
  have "\<exists>s m. score_post ex_filter ex_robot_post = Inr (s, m) \<and>
      matched_topics m =
        [\<lparr>entry_topic = ''robotics'', entry_priority = ''high'', entry_score = 10\<rparr>]"
    unfolding e by blast
  then show ?thesis
    using ex_filter_well_formed h2 h3 by blast
qed

text \<open>
  The claim as stated fails under a zero weight: the topic matches, its score is \<open>0\<close>,
  and it is recorded all the same.
\<close>

theorem zero_score_topic_counterexample:
  "score_post ex_zero_weight_filter ex_robot_post =
     Inr (0,
          \<lparr>matched_topics =
             [\<lparr>entry_topic = ''robotics'', entry_priority = ''high'', entry_score = 0\<rparr>],
           matched_keywords = [''robot''], exclude_matches = [],
           score_breakdown = [(''robotics'', 0)]\<rparr>)"
  unfolding ex_zero_weight_filter_def ex_robot_post_def by code_simp

subsection \<open>C6: duplicates among the matched keywords\<close>

lemma distinct_concat_disjoint:
  "(\<forall>x\<in>set xs. distinct x) \<Longrightarrow>
     distinct (concat xs) = sorted_wrt (\<lambda>a b. set a \<inter> set b = {}) xs"
  by (induction xs) auto

lemma concat_map_filter_nonempty:
  "(\<And>x. h x = [] \<Longrightarrow> g x = []) \<Longrightarrow>
     concat (map g (filter (\<lambda>x. h x \<noteq> []) xs)) = concat (map g xs)"
  by (induction xs) auto

lemma matched_keywords_all_interests:
  "concat (map (\<lambda>it. remdups (topic_matches_of post it)) (matching_interests f post)) =
   concat (map (\<lambda>it. remdups (topic_matches_of post it)) (interests f))"
  unfolding matching_interests_def
  by (rule concat_map_filter_nonempty) simp

lemma distinct_segments_iff:
  "distinct (concat (map (\<lambda>it. remdups (topic_matches_of post it)) its)) \<longleftrightarrow>
   (\<forall>i j. i < j \<and> j < length its \<longrightarrow>
      set (topic_matches_of post (its ! i)) \<inter> set (topic_matches_of post (its ! j)) = {})"
proof -
  have "distinct (concat (map (\<lambda>it. remdups (topic_matches_of post it)) its)) \<longleftrightarrow>
        sorted_wrt (\<lambda>a b. set a \<inter> set b = {}) (map (\<lambda>it. remdups (topic_matches_of post it)) its)"
    by (rule distinct_concat_disjoint) simp
  also have "\<dots> \<longleftrightarrow> (\<forall>i j. i < j \<and> j < length its \<longrightarrow>
      set (topic_matches_of post (its ! i)) \<inter> set (topic_matches_of post (its ! j)) = {})"
    by (auto simp: sorted_wrt_iff_nth_less)
  finally show ?thesis .
qed

text \<open>
  Claim C6, as amended. \<open>matched_keywords\<close> is empty after the early exit and otherwise the
  concatenation, in configuration order, of each interest topic's distinct literal
  matches. So no string is repeated within one topic's contribution, and the whole list
  is free of duplicates exactly when no literal match is shared by two interest topics.
\<close>

theorem matched_keywords_segments:
  assumes "well_formed f" and "doc_ok post"
  shows "\<exists>s m. score_post f post = Inr (s, m) \<and>
           matched_keywords m =
             (if early_exit f post then []
              else concat (map (\<lambda>it. remdups (topic_matches_of post it)) (interests f))) \<and>
           (distinct (matched_keywords m) \<longleftrightarrow>
              early_exit f post \<or>
              (\<forall>i j. i < j \<and> j < length (interests f) \<longrightarrow>
                 set (topic_matches_of post (interests f ! i)) \<inter>
                 set (topic_matches_of post (interests f ! j)) = {}))"
proof (cases "early_exit f post")
  case True
  then show ?thesis
    using score_post_eq[OF assms] by simp
next
  case False
  then show ?thesis
    using score_post_eq[OF assms]
    by (simp add: matched_keywords_all_interests distinct_segments_iff)
qed

theorem matched_keywords_segments_witness:
  "well_formed ex_filter \<and> doc_ok ex_robot_post \<and>
   (\<exists>s m. score_post ex_filter ex_robot_post = Inr (s, m) \<and>
      matched_keywords m = [''robot''] \<and> distinct (matched_keywords m))"
proof -
  have h2: "doc_ok ex_robot_post"
    unfolding ex_robot_post_def doc_ok_def by simp
  have h3: "\<not> early_exit ex_filter ex_robot_post"
    unfolding ex_filter_def ex_robot_post_def by code_simp
  have e: "concat (map (\<lambda>it. remdups (topic_matches_of ex_robot_post it)) (interests ex_filter)) =
           [''robot'']"
    unfolding ex_filter_def ex_robot_post_def by code_simp
  from matched_keywords_segments[OF ex_filter_well_formed h2]
  obtain s m where "score_post ex_filter ex_robot_post = Inr (s, m)"
    and "matched_keywords m =
             (if early_exit ex_filter ex_robot_post then []
              else concat (map (\<lambda>it. remdups (topic_matches_of ex_robot_post it))
                     (interests ex_filter)))"
    by blast
  then have "score_post ex_filter ex_robot_post = Inr (s, m) \<and>
      matched_keywords m = [''robot''] \<and> distinct (matched_keywords m)"
    using h3 e by simp
  then show ?thesis
    using ex_filter_well_formed h2 by blast
qed

text \<open>
  The claim as stated fails when two interest topics list the same keyword: the matched
  string is recorded once per topic.
\<close>

theorem shared_keyword_counterexample:
  "score_post ex_overlap_filter ex_robot_post =
     Inr (12,
          \<lparr>matched_topics =
             [\<lparr>entry_topic = ''robotics'', entry_priority = ''high'', entry_score = 10\<rparr>,
              \<lparr>entry_topic = ''hardware'', entry_priority = ''low'', entry_score = 2\<rparr>],
           matched_keywords = [''robot'', ''robot''], exclude_matches = [],
           score_breakdown = [(''robotics'', 10), (''hardware'', 2)]\<rparr>) \<and>
   \<not> distinct [''robot'', ''robot'']"
  unfolding ex_overlap_filter_def ex_robot_post_def by code_simp

subsection \<open>C7: repeated occurrences in one field\<close>









subsection \<open>C8: whole-word, case-insensitive, literal matching\<close>

text \<open>
  Claim C8. A compiled pattern matches a text exactly when one of its keywords occurs in
  it as a whole word, compared without regard to letter case and character by character
  (no character of a keyword acts as a regular-expression operator); \<open>findall\<close> finds
  something exactly when \<open>search\<close> succeeds. In particular \<open>bot\<close> does not match
  \<open>robotics\<close>, and \<open>robot\<close> matches \<open>I have a robot\<close>.
\<close>

theorem keyword_matching_whole_word:
  "(kws \<noteq> [] \<longrightarrow> search kws t = (\<exists>kw\<in>set kws. whole_word_occurrence kw t)) \<and>
   (findall kws t \<noteq> []) = search kws t \<and>
   \<not> search [''bot''] ''robotics'' \<and>
   search [''robot''] ''I have a robot'' \<and>
   search [''robot''] ''I HAVE A ROBOT.'' \<and>
   \<not> search [''a.c''] ''abc'' \<and>
   search [''a.c''] ''A.C''"
proof (intro conjI impI)
  show "search kws t = (\<exists>kw\<in>set kws. whole_word_occurrence kw t)" if "kws \<noteq> []"
    using that by (rule search_iff_occurrence)
  show "(findall kws t \<noteq> []) = search kws t"
    by (rule findall_nonempty_iff_search)
  show "\<not> search [''bot''] ''robotics''"
    by code_simp
  show "search [''robot''] ''I have a robot''"
    by code_simp
  show "search [''robot''] ''I HAVE A ROBOT.''"
    by code_simp
  show "\<not> search [''a.c''] ''abc''"
    by code_simp
  show "search [''a.c''] ''A.C''"
    by code_simp
qed

theorem keyword_matching_whole_word_witness:
  "[''robot'', ''robotics''] \<noteq> [] \<and>
   search [''robot'', ''robotics''] ''New Robot unveiled'' \<and>
   (\<exists>kw\<in>set [''robot'', ''robotics'']. whole_word_occurrence kw ''New Robot unveiled'')"
proof -
  have a: "[''robot'', ''robotics''] \<noteq> ([] :: string list)"
    by simp
  have b: "search [''robot'', ''robotics''] ''New Robot unveiled''"
    by code_simp
  have "[''robot'', ''robotics''] \<noteq> [] \<longrightarrow>
        search [''robot'', ''robotics''] ''New Robot unveiled'' =
          (\<exists>kw\<in>set [''robot'', ''robotics'']. whole_word_occurrence kw ''New Robot unveiled'')"
    using keyword_matching_whole_word[of "[''robot'', ''robotics'']" "''New Robot unveiled''"]
    by (rule conjunct1)
  with a b show ?thesis
    by blast
qed

subsection \<open>C9: scoring never raises\<close>

lemma compile_patterns_total:
  "list_all (\<lambda>t. rt_keywords t \<noteq> None) ts \<Longrightarrow> compile_patterns ts = Inr (map compiled ts)"
  by (induction ts) (auto simp: compiled_def)

lemma init_well_formed:
  assumes "wf_config cfg"
  shows "\<exists>f. init cfg = Inr f \<and> well_formed f"
proof -
  from assms obtain ints sc where
    i: "cfg_interests cfg = Some ints" and s: "cfg_scoring cfg = Some sc" and
    wi: "list_all (\<lambda>t. rt_topic t \<noteq> None \<and> rt_priority t \<noteq> None \<and> rt_keywords t \<noteq> None) ints" and
    ws: "list_all (\<lambda>k. sc k \<noteq> None) required_constants"
    by (auto simp: wf_config_def split: option.splits)
  define excl where "excl = (case cfg_exclude_topics cfg of None \<Rightarrow> [] | Some es \<Rightarrow> es)"
  from assms have we: "list_all (\<lambda>t. rt_topic t \<noteq> None \<and> rt_keywords t \<noteq> None) excl"
    by (auto simp: wf_config_def excl_def split: option.splits)
  have ci: "compile_patterns ints = Inr (map compiled ints)"
    by (rule compile_patterns_total) (use wi in \<open>auto simp: list_all_iff\<close>)
  have ce: "compile_patterns excl = Inr (map compiled excl)"
    by (rule compile_patterns_total) (use we in \<open>auto simp: list_all_iff\<close>)
  have "init cfg =
          Inr \<lparr>interests = map compiled ints, exclude_topics = map compiled excl, scoring = sc\<rparr>"
    by (simp add: init_def i s ci ce excl_def[symmetric])
  moreover have "well_formed
      \<lparr>interests = map compiled ints, exclude_topics = map compiled excl, scoring = sc\<rparr>"
    using wi we ws by (auto simp: well_formed_def list_all_iff compiled_def)
  ultimately show ?thesis
    by blast
qed

lemma map_of_set_default:
  "map_of (set_default d k v) k' =
     (if k' = k \<and> map_of d k = None then Some v else map_of d k')"
  by (auto simp: set_default_def map_add_def split: option.splits)

lemma py_get_set_default_same: "py_get (set_default d k v) k v = py_get d k v"
  by (simp add: py_get_def map_of_set_default split: option.splits)

lemma py_get_set_default_other: "k' \<noteq> k \<Longrightarrow> py_get (set_default d k v) k' w = py_get d k' w"
  by (simp add: py_get_def map_of_set_default)

lemma py_get_with_defaults:
  "py_get (with_defaults post) ''title'' (PStr '''') = py_get post ''title'' (PStr '''')"
  "py_get (with_defaults post) ''ai_summary'' (PStr '''') = py_get post ''ai_summary'' (PStr '''')"
  "py_get (with_defaults post) ''key_points'' (PList []) = py_get post ''key_points'' (PList [])"
  "py_get (with_defaults post) ''significance'' (PStr '''') =
     py_get post ''significance'' (PStr '''')"
  unfolding with_defaults_def
  by (simp_all add: py_get_set_default_same py_get_set_default_other)

lemma score_post_with_defaults: "score_post f (with_defaults post) = score_post f post"
  unfolding score_post_def py_get_with_defaults ..

lemma with_defaults_present:
  "map_of (with_defaults post) ''title'' \<noteq> None"
  "map_of (with_defaults post) ''ai_summary'' \<noteq> None"
  "map_of (with_defaults post) ''key_points'' \<noteq> None"
  "map_of (with_defaults post) ''significance'' \<noteq> None"
  unfolding with_defaults_def by (simp_all add: map_of_set_default)

text \<open>
  Claim C9. A configuration in which every key is present loads, and with the loaded
  filter neither \<open>score_post\<close> nor \<open>filter_posts\<close> raises on documents of the input shape
  (each text field a string or absent, \<open>key_points\<close> a list of strings or absent). An
  absent field is scored as the empty string, \<open>key_points\<close> as the empty list: the result
  is that of the document with the four defaults filled in.
\<close>

theorem scoring_never_raises:
  assumes "wf_config cfg"
  shows "\<exists>f. init cfg = Inr f \<and>
           (\<forall>post. doc_ok post \<longrightarrow>
              (\<exists>s m. score_post f post = Inr (s, m)) \<and>
              score_post f post = score_post f (with_defaults post) \<and>
              map_of (with_defaults post) ''title'' \<noteq> None \<and>
              map_of (with_defaults post) ''ai_summary'' \<noteq> None \<and>
              map_of (with_defaults post) ''key_points'' \<noteq> None \<and>
              map_of (with_defaults post) ''significance'' \<noteq> None) \<and>
           (\<forall>posts. list_all doc_ok posts \<longrightarrow> (\<exists>out. filter_posts f posts = Inr out))"
proof -
  from init_well_formed[OF assms] obtain f where f: "init cfg = Inr f" and wf: "well_formed f"
    by blast
  have a: "\<exists>s m. score_post f post = Inr (s, m)" if "doc_ok post" for post
  proof -
    from score_post_eq[OF wf that] obtain r where "score_post f post = Inr r"
      by blast
    then show ?thesis
      by (cases r) simp
  qed
  have b: "\<exists>out. filter_posts f posts = Inr out" if "list_all doc_ok posts" for posts
    by (rule filter_posts_total[OF wf that])
  have c: "doc_ok post \<longrightarrow>
              (\<exists>s m. score_post f post = Inr (s, m)) \<and>
              score_post f post = score_post f (with_defaults post) \<and>
              map_of (with_defaults post) ''title'' \<noteq> None \<and>
              map_of (with_defaults post) ''ai_summary'' \<noteq> None \<and>
              map_of (with_defaults post) ''key_points'' \<noteq> None \<and>
              map_of (with_defaults post) ''significance'' \<noteq> None" for post
    using a[of post] score_post_with_defaults[of f post] with_defaults_present[of post]
    by (intro impI conjI) simp_all
  from f c b show ?thesis
    by (intro exI[of _ f] conjI allI impI) blast+
qed

theorem scoring_never_raises_witness:
  "wf_config ex_config \<and> init ex_config = Inr ex_filter \<and> doc_ok ex_bare_post \<and>
   score_post ex_filter ex_bare_post = Inr (0, no_matches) \<and>
   list_all doc_ok [ex_bare_post] \<and>
   (\<exists>out. filter_posts ex_filter [ex_bare_post] = Inr out)"
proof -
  have w: "wf_config ex_config"
    unfolding wf_config_def ex_config_def required_constants_def by simp
  have i: "init ex_config = Inr ex_filter"
    unfolding init_def ex_config_def ex_filter_def by simp
  have d: "doc_ok ex_bare_post"
    unfolding doc_ok_def ex_bare_post_def by simp
  have l: "list_all doc_ok [ex_bare_post]"
    using d by simp
  have v: "score_post ex_filter ex_bare_post = Inr (0, no_matches)"
    unfolding ex_filter_def ex_bare_post_def no_matches_def by code_simp
  from scoring_never_raises[OF w] obtain f where
    f: "init ex_config = Inr f" and
    t: "\<forall>posts. list_all doc_ok posts \<longrightarrow> (\<exists>out. filter_posts f posts = Inr out)"
    by blast
  from f i have "f = ex_filter"
    by simp
  with t l have o: "\<exists>out. filter_posts ex_filter [ex_bare_post] = Inr out"
    by blast
  from w i d v l o show ?thesis
    by (intro conjI)
qed

subsection \<open>C10: what annotation keeps and adds\<close>

text \<open>
  Claim C10. The functions of the embedding return new values and leave their arguments
  as they are, as the source builds a fresh dict and a fresh list. Every returned
  document is the annotation of an input document: it agrees with it on every key other
  than \<open>relevance_score\<close>, \<open>relevance_matches\<close> and \<open>is_relevant\<close>, it holds under these three
  keys the score, the match details and the flag, whatever the input held there, and it
  has no further key.
\<close>

theorem filter_posts_frame:
  assumes "filter_posts f posts = Inr out"
  shows "\<exists>eps. mset out = mset eps \<and>
           list_all2 (\<lambda>p e. \<exists>score m threshold.
               score_post f p = Inr (score, m) \<and>
               scoring f ''minimum_score_threshold'' = Some threshold \<and>
               (\<forall>k. k \<notin> {''relevance_score'', ''relevance_matches'', ''is_relevant''} \<longrightarrow>
                  map_of e k = map_of p k) \<and>
               map_of e ''relevance_score'' = Some (PNum score) \<and>
               map_of e ''relevance_matches'' = Some (matches_val m) \<and>
               map_of e ''is_relevant'' = Some (PBool (score \<ge> threshold)) \<and>
               set (map fst e) =
                 set (map fst p) \<union> {''relevance_score'', ''relevance_matches'', ''is_relevant''})
             posts eps"
proof -
  from filter_posts_Inr[OF assms] obtain eps where
    eps: "enhance_all f posts = Inr eps" and
    out: "out = sort_key (\<lambda>x. - relevance_score x) eps"
    by blast
  have "list_all2 (\<lambda>p e. enhance f p = Inr e) posts eps"
    by (rule enhance_all_Inr[OF eps])
  then have "list_all2 (\<lambda>p e. \<exists>score m threshold.
               score_post f p = Inr (score, m) \<and>
               scoring f ''minimum_score_threshold'' = Some threshold \<and>
               (\<forall>k. k \<notin> {''relevance_score'', ''relevance_matches'', ''is_relevant''} \<longrightarrow>
                  map_of e k = map_of p k) \<and>
               map_of e ''relevance_score'' = Some (PNum score) \<and>
               map_of e ''relevance_matches'' = Some (matches_val m) \<and>
               map_of e ''is_relevant'' = Some (PBool (score \<ge> threshold)) \<and>
               set (map fst e) =
                 set (map fst p) \<union> {''relevance_score'', ''relevance_matches'', ''is_relevant''})
             posts eps"
  proof (rule list_all2_mono)
    fix p e
    assume pe: "enhance f p = Inr e"
    from enhance_lookup[OF pe] obtain score m threshold where
      a: "score_post f p = Inr (score, m)"
        "scoring f ''minimum_score_threshold'' = Some threshold" and
      e: "map_of e = (map_of p)(''relevance_score'' \<mapsto> PNum score,
                             ''relevance_matches'' \<mapsto> matches_val m,
                             ''is_relevant'' \<mapsto> PBool (score \<ge> threshold))"
      by blast
    have k: "\<forall>k. k \<notin> {''relevance_score'', ''relevance_matches'', ''is_relevant''} \<longrightarrow>
                  map_of e k = map_of p k"
      unfolding e by simp
    have v: "map_of e ''relevance_score'' = Some (PNum score)"
      "map_of e ''relevance_matches'' = Some (matches_val m)"
      "map_of e ''is_relevant'' = Some (PBool (score \<ge> threshold))"
      unfolding e by simp_all
    have "dom (map_of e) =
            dom (map_of p) \<union> {''relevance_score'', ''relevance_matches'', ''is_relevant''}"
      unfolding e by auto
    then have d: "set (map fst e) =
                 set (map fst p) \<union> {''relevance_score'', ''relevance_matches'', ''is_relevant''}"
      by (simp only: dom_map_of_conv_image_fst set_map)
    from a k v d show "\<exists>score m threshold.
               score_post f p = Inr (score, m) \<and>
               scoring f ''minimum_score_threshold'' = Some threshold \<and>
               (\<forall>k. k \<notin> {''relevance_score'', ''relevance_matches'', ''is_relevant''} \<longrightarrow>
                  map_of e k = map_of p k) \<and>
               map_of e ''relevance_score'' = Some (PNum score) \<and>
               map_of e ''relevance_matches'' = Some (matches_val m) \<and>
               map_of e ''is_relevant'' = Some (PBool (score \<ge> threshold)) \<and>
               set (map fst e) =
                 set (map fst p) \<union> {''relevance_score'', ''relevance_matches'', ''is_relevant''}"
      by blast
  qed
  moreover have "mset out = mset eps"
    by (simp add: out)
  ultimately show ?thesis
    by blast
qed

lemma ex_stale_eval: "filter_posts ex_filter [ex_stale_post] = Inr [ex_stale_out]"
  unfolding ex_filter_def ex_stale_post_def ex_stale_out_def by code_simp

theorem filter_posts_frame_witness:
  "filter_posts ex_filter [ex_stale_post] = Inr [ex_stale_out] \<and>
   map_of ex_stale_post ''is_relevant'' = Some (PStr ''stale'') \<and>
   map_of ex_stale_out ''is_relevant'' = Some (PBool True) \<and>
   map_of ex_stale_out ''title'' = map_of ex_stale_post ''title'' \<and>
   (\<exists>eps. mset [ex_stale_out] = mset eps \<and>
           list_all2 (\<lambda>p e. \<exists>score m threshold.
               score_post ex_filter p = Inr (score, m) \<and>
               scoring ex_filter ''minimum_score_threshold'' = Some threshold \<and>
               (\<forall>k. k \<notin> {''relevance_score'', ''relevance_matches'', ''is_relevant''} \<longrightarrow>
                  map_of e k = map_of p k) \<and>
               map_of e ''relevance_score'' = Some (PNum score) \<and>
               map_of e ''relevance_matches'' = Some (matches_val m) \<and>
               map_of e ''is_relevant'' = Some (PBool (score \<ge> threshold)) \<and>
               set (map fst e) =
                 set (map fst p) \<union> {''relevance_score'', ''relevance_matches'', ''is_relevant''})
             [ex_stale_post] eps)"
proof -
  have a: "map_of ex_stale_post ''is_relevant'' = Some (PStr ''stale'')"
    "map_of ex_stale_out ''is_relevant'' = Some (PBool True)"
    "map_of ex_stale_out ''title'' = map_of ex_stale_post ''title''"
    unfolding ex_stale_post_def ex_stale_out_def by simp_all
  note e = filter_posts_frame[OF ex_stale_eval]
  from ex_stale_eval a e show ?thesis
    by (intro conjI)
qed

end
